theory Spec2Isabelle
  imports Complex_Main
begin

section \<open>Strings\<close>

text \<open>
  JavaScript strings are modelled as \<^typ>\<open>string\<close>. \<open>toLowerCase\<close> maps the ASCII capitals
  to their small letters and leaves every other character alone; \<open>trim\<close> strips the ASCII
  white space characters from both ends.
\<close>

definition lowerTable :: "(char \<times> char) list" where
  "lowerTable = zip ''ABCDEFGHIJKLMNOPQRSTUVWXYZ'' ''abcdefghijklmnopqrstuvwxyz''"

definition lowerChar :: "char \<Rightarrow> char" where
  "lowerChar c = (case map_of lowerTable c of Some d \<Rightarrow> d | None \<Rightarrow> c)"

definition toLowerCase :: "string \<Rightarrow> string" where
  "toLowerCase s = map lowerChar s"

definition isWhiteSpace :: "char \<Rightarrow> bool" where
  "isWhiteSpace c = (c \<in> set [CHR '' '', CHR 0x09, CHR 0x0A, CHR 0x0B, CHR 0x0C, CHR 0x0D])"

definition trim :: "string \<Rightarrow> string" where
  "trim s = rev (dropWhile isWhiteSpace (rev (dropWhile isWhiteSpace s)))"

text \<open>\<^verbatim>\<open>function normTag(t) { return String(t || "").toLowerCase().trim(); }\<close>\<close>

definition normTag :: "string \<Rightarrow> string" where
  "normTag t = trim (toLowerCase t)"

section \<open>Numbers\<close>

text \<open>
  JavaScript numbers are modelled as real numbers: the finite values only. A value that is
  \<open>null\<close>, \<open>NaN\<close> or infinite in the program is \<open>None\<close> of an option type here. The pricing
  formulas and the comparisons of the diff engine are modelled without the rounding of binary
  floating point. The classifier is modelled with it: it branches on the sign of a
  difference, which the rounding of a single operation can change (see the subsection on
  binary floating point below).

  \<^verbatim>\<open>function clamp(x, a, b) { return Math.max(a, Math.min(b, x)); }
  function round2(x) { return Math.round(x * 100) / 100; }\<close>
  \<open>Math.round\<close> rounds to the nearest integer, a half towards plus infinity.
\<close>

definition clamp :: "real \<Rightarrow> real \<Rightarrow> real \<Rightarrow> real" where
  "clamp x a b = max a (min b x)"

definition round2 :: "real \<Rightarrow> real" where
  "round2 x = of_int \<lfloor>x * 100 + 1 / 2\<rfloor> / 100"

subsection \<open>The built-in conversion of a string to a number\<close>

text \<open>
  \<open>Number(s)\<close> follows the grammar of string numeric literals: white space around the
  literal is dropped, the empty string is \<open>0\<close>, a literal is a binary, octal or hexadecimal
  integer with its prefix, or a signed decimal with an optional fraction and an optional
  exponent. Everything else is \<open>NaN\<close>; so is \<open>Infinity\<close> as far as the program is concerned,
  which keeps finite values only.
\<close>

definition digitTable :: "(char \<times> nat) list" where
  "digitTable = zip ''0123456789abcdef'' [0, 1, 2, 3, 4, 5, 6, 7, 8, 9, 10, 11, 12, 13, 14, 15]"

definition digitValue :: "char \<Rightarrow> nat option" where
  "digitValue c = map_of digitTable (lowerChar c)"

fun digitsIn :: "nat \<Rightarrow> string \<Rightarrow> nat \<Rightarrow> nat option" where
  "digitsIn b [] acc = Some acc"
| "digitsIn b (c # cs) acc =
     (case digitValue c of
        None \<Rightarrow> None
      | Some d \<Rightarrow> if d < b then digitsIn b cs (acc * b + d) else None)"

fun splitAt :: "(char \<Rightarrow> bool) \<Rightarrow> string \<Rightarrow> string \<times> string option" where
  "splitAt P [] = ([], None)"
| "splitAt P (c # cs) =
     (if P c then ([], Some cs) else (case splitAt P cs of (a, r) \<Rightarrow> (c # a, r)))"

definition radixPrefix :: "string \<Rightarrow> (nat \<times> string) option" where
  "radixPrefix t =
     (case t of
        c0 # c1 # ds \<Rightarrow>
          if c0 = CHR ''0'' then
            (if lowerChar c1 = CHR ''x'' then Some (16, ds)
             else if lowerChar c1 = CHR ''o'' then Some (8, ds)
             else if lowerChar c1 = CHR ''b'' then Some (2, ds)
             else None)
          else None
      | _ \<Rightarrow> None)"

definition signedInteger :: "string \<Rightarrow> int option" where
  "signedInteger e =
     (case e of
        [] \<Rightarrow> None
      | c # ds \<Rightarrow>
          if c = CHR ''-'' then (if ds = [] then None else map_option (\<lambda>n. - int n) (digitsIn 10 ds 0))
          else if c = CHR ''+'' then (if ds = [] then None else map_option int (digitsIn 10 ds 0))
          else map_option int (digitsIn 10 e 0))"

definition mantissa :: "string \<Rightarrow> real option" where
  "mantissa m =
     (case splitAt (\<lambda>c. c = CHR ''.'') m of
        (ip, None) \<Rightarrow> if ip = [] then None else map_option real (digitsIn 10 ip 0)
      | (ip, Some fp) \<Rightarrow>
          if ip = [] \<and> fp = [] then None
          else (case (digitsIn 10 ip 0, digitsIn 10 fp 0) of
                  (Some a, Some b) \<Rightarrow> Some (real a + real b / 10 ^ length fp)
                | _ \<Rightarrow> None))"

definition strUnsignedDecimal :: "string \<Rightarrow> real option" where
  "strUnsignedDecimal u =
     (case splitAt (\<lambda>c. c = CHR ''e'' \<or> c = CHR ''E'') u of
        (m, None) \<Rightarrow> mantissa m
      | (m, Some e) \<Rightarrow>
          (case (mantissa m, signedInteger e) of
             (Some v, Some k) \<Rightarrow> Some (if k \<ge> 0 then v * 10 ^ nat k else v / 10 ^ nat (- k))
           | _ \<Rightarrow> None))"

definition jsNumber :: "string \<Rightarrow> real option" where
  "jsNumber s =
     (let t = trim s
      in if t = [] then Some 0
         else case radixPrefix t of
                Some (b, ds) \<Rightarrow> if ds = [] then None else map_option real (digitsIn b ds 0)
              | None \<Rightarrow>
                  if hd t = CHR ''-'' then map_option uminus (strUnsignedDecimal (tl t))
                  else if hd t = CHR ''+'' then strUnsignedDecimal (tl t)
                  else strUnsignedDecimal t)"

text \<open>\<open>s.replace(",", ".")\<close> replaces the first comma only.\<close>

fun replaceComma :: "string \<Rightarrow> string" where
  "replaceComma [] = []"
| "replaceComma (c # cs) = (if c = CHR '','' then CHR ''.'' # cs else c # replaceComma cs)"

text \<open>
  \<^verbatim>\<open>function toNumberOrNull(x) {
    const n = Number(String(x ?? "").replace(",", "."));
    return Number.isFinite(n) ? n : null; }\<close>
  The argument is a cell of the input row, \<open>undefined\<close> (here \<open>None\<close>) when the row is
  too short.
\<close>

definition toNumberOrNull :: "string option \<Rightarrow> real option" where
  "toNumberOrNull x = jsNumber (replaceComma (case x of None \<Rightarrow> [] | Some s \<Rightarrow> s))"

text \<open>
  The script \<open>matrixify-run.mjs\<close> has a \<open>toNumberOrNull\<close> of its own, which checks for the
  empty string first:
  \<^verbatim>\<open>function toNumberOrNull(x) {
    const s = String(x ?? "").trim();
    if (!s) return null;
    const n = Number(s.replace(",", "."));
    return Number.isFinite(n) ? n : null; }\<close>
\<close>

definition toNumberOrNull_run :: "string option \<Rightarrow> real option" where
  "toNumberOrNull_run x =
     (let s = trim (case x of None \<Rightarrow> [] | Some v \<Rightarrow> v)
      in if s = [] then None else jsNumber (replaceComma s))"

subsection \<open>The built-in conversion of a number to a string\<close>

text \<open>
  \<open>String(x)\<close> is applied by the program to results of \<open>round2\<close> only, that is to whole
  numbers of cents, and is modelled for those: the integer part, then the fraction without
  trailing zeros. (The exponent notation that JavaScript switches to from \<open>1e21\<close> on is left
  out; doubles of that size do not resolve cents.) \<open>String(null)\<close> is \<open>"null"\<close>.
\<close>

definition digitChar :: "nat \<Rightarrow> char" where
  "digitChar d = ''0123456789'' ! d"

fun showNat :: "nat \<Rightarrow> string" where
  "showNat n = (if n < 10 then [digitChar n] else showNat (n div 10) @ [digitChar (n mod 10)])"

declare showNat.simps [simp del]

definition numberToString :: "real \<Rightarrow> string" where
  "numberToString x =
     (let c = \<lfloor>x * 100\<rfloor>;
          a = nat \<bar>c\<bar>;
          ip = a div 100;
          fp = a mod 100
      in (if c < 0 then ''-'' else []) @ showNat ip @
         (if fp = 0 then []
          else CHR ''.'' # digitChar (fp div 10) #
               (if fp mod 10 = 0 then [] else [digitChar (fp mod 10)])))"

definition jsString :: "real option \<Rightarrow> string" where
  "jsString x = (case x of None \<Rightarrow> ''null'' | Some v \<Rightarrow> numberToString v)"

text \<open>
  \<^verbatim>\<open>function approxEqualMoney(a, b) {
    const na = toNumberOrNull(a);
    const nb = toNumberOrNull(b);
    if (!(na > -Infinity) || !(nb > -Infinity)) return false;
    return Math.abs(na - nb) < 0.005; }\<close>
  Both arguments are numbers or \<open>null\<close> where the program calls it. A number survives
  \<open>Number(String(x))\<close>; \<open>null\<close> becomes the empty string and then \<open>0\<close>, so the guard never
  fires.
\<close>

definition nullAsZero :: "real option \<Rightarrow> real" where
  "nullAsZero a = (case a of None \<Rightarrow> 0 | Some x \<Rightarrow> x)"

definition approxEqualMoney :: "real option \<Rightarrow> real option \<Rightarrow> bool" where
  "approxEqualMoney a b =
     (let na = nullAsZero a; nb = nullAsZero b in \<bar>na - nb\<bar> < 0.005)"

subsection \<open>Binary floating point\<close>

text \<open>
  A JavaScript number is a binary64 number, and every arithmetic operation returns the
  binary64 number nearest to its exact result, a tie going to the one whose significand is
  even. \<open>fl x\<close> is that number for the exact result \<open>x\<close>. \<open>binade x\<close> is the exponent \<open>e\<close> with
  \<open>2 powi e \<le> \<bar>x\<bar>\<close> and \<open>\<bar>x\<bar> < 2 powi (e + 1)\<close>; the binary64 numbers of that binade are the
  multiples of \<open>2 powi (e - 52)\<close>, and those below \<open>2 powi (- 1022)\<close>, the subnormal numbers,
  are the multiples of \<open>2 powi (- 1074)\<close>. The exponent has no upper bound here: overflow to
  infinity is not modelled.
\<close>

fun log2floor :: "nat \<Rightarrow> nat" where
  "log2floor n = (if n < 2 then 0 else Suc (log2floor (n div 2)))"

declare log2floor.simps [simp del]

definition binade :: "real \<Rightarrow> int" where
  "binade x =
     (if 1 \<le> \<bar>x\<bar> then int (log2floor (nat \<lfloor>\<bar>x\<bar>\<rfloor>))
      else - int (Suc (log2floor (nat (\<lceil>1 / \<bar>x\<bar>\<rceil> - 1)))))"

definition roundTiesEven :: "real \<Rightarrow> int" where
  "roundTiesEven y =
     (let f = \<lfloor>y\<rfloor>; r = y - of_int f
      in if r < 1 / 2 then f else if 1 / 2 < r then f + 1 else if even f then f else f + 1)"

definition fl :: "real \<Rightarrow> real" where
  "fl x =
     (if x = 0 then 0
      else let q = 2 powi (max (binade x) (- 1022) - 52)
           in of_int (roundTiesEven (x / q)) * q)"

section \<open>Classifier\<close>

text \<open>
  \<^verbatim>\<open>function hasUsedGateway(tagsArr) {
    const lower = (tagsArr || []).map(normTag);
    return lower.includes("preowned / defect") || lower.includes("preloved"); }\<close>
\<close>

definition hasUsedGateway :: "string list \<Rightarrow> bool" where
  "hasUsedGateway tagsArr =
     (let lower = map normTag tagsArr
      in ''preowned / defect'' \<in> set lower \<or> ''preloved'' \<in> set lower)"

definition hasCnfdnt :: "string list \<Rightarrow> bool" where
  "hasCnfdnt tagsArr = (let lower = map normTag tagsArr in ''cnfdnt'' \<in> set lower)"

text \<open>
  \<^verbatim>\<open>function determineTypeArigato(M, C, tagsArr) {
    if (!(M > 0) || !(C > 0)) return "skip";
    if (hasUsedGateway(tagsArr)) return "used";
    const d_max = 0.51;
    const ship_cost = 12.9;
    const cust_ship = 8.5;
    const aff_rate = 0.12;
    const other_rate = 0.0455;
    const P_sale_max = M * (1 - d_max);
    const affiliate_fee = P_sale_max * aff_rate;
    const gross_with_ship = P_sale_max + cust_ship;
    const other_fee = gross_with_ship * other_rate;
    const G = P_sale_max - C - ship_cost - affiliate_fee - other_fee;
    return (G >= 0) ? "standard" : "low-margin"; }\<close>
  The projected worst-case margin \<open>G\<close> is a local constant of \<open>determineTypeArigato\<close>; it is
  a definition of its own here so that it can be talked about. It is computed as the program
  computes it: a decimal literal is the binary64 number nearest to it, every operation rounds
  its result, and the subtractions are done from left to right. (For finite positive \<open>M\<close> and
  \<open>C\<close> none of these operations overflows: the products are below \<open>M\<close>, the sum is below
  \<open>M + 9\<close>, and the differences are bounded by about the larger of \<open>M\<close> and \<open>C + 14\<close> in
  magnitude.)
\<close>

definition marginG :: "real \<Rightarrow> real \<Rightarrow> real" where
  "marginG M C =
     (let d_max = fl 0.51;
          ship_cost = fl 12.9;
          cust_ship = fl 8.5;
          aff_rate = fl 0.12;
          other_rate = fl 0.0455;
          P_sale_max = fl (M * fl (1 - d_max));
          affiliate_fee = fl (P_sale_max * aff_rate);
          gross_with_ship = fl (P_sale_max + cust_ship);
          other_fee = fl (gross_with_ship * other_rate)
      in fl (fl (fl (fl (P_sale_max - C) - ship_cost) - affiliate_fee) - other_fee))"

text \<open>
  The margin as the specification words it, \<open>G = P_sale_max - C - ship_cost - affiliate_fee -
  other_fee\<close> with \<open>P_sale_max = M (1 - d_max)\<close>, \<open>affiliate_fee = P_sale_max aff_rate\<close> and
  \<open>other_fee = (P_sale_max + cust_ship) other_rate\<close>, over the real numbers: the decimal
  constants themselves and no rounding. This is not what the program computes; it is the
  quantity that \<open>marginG\<close> approximates, and \<open>roundoff M C\<close> bounds the distance between the
  two for \<open>M\<close> and \<open>C\<close> that are not negative.
\<close>

definition marginG_exact :: "real \<Rightarrow> real \<Rightarrow> real" where
  "marginG_exact M C =
     (let d_max = 0.51;
          ship_cost = 12.9;
          cust_ship = 8.5;
          aff_rate = 0.12;
          other_rate = 0.0455;
          P_sale_max = M * (1 - d_max);
          affiliate_fee = P_sale_max * aff_rate;
          other_fee = (P_sale_max + cust_ship) * other_rate
      in P_sale_max - C - ship_cost - affiliate_fee - other_fee)"

definition roundoff :: "real \<Rightarrow> real \<Rightarrow> real" where
  "roundoff M C = (M + C + 16) / 2 ^ 50"

definition determineTypeArigato :: "real \<Rightarrow> real \<Rightarrow> string list \<Rightarrow> string" where
  "determineTypeArigato M C tagsArr =
     (if \<not> (M > 0) \<or> \<not> (C > 0) then ''skip''
      else if hasUsedGateway tagsArr then ''used''
      else if marginG M C \<ge> 0 then ''standard'' else ''low-margin'')"

section \<open>Tag reconciler\<close>

definition TYPE_TAGS :: "string list" where
  "TYPE_TAGS = [''used'', ''standard'', ''low-margin'']"

record tag_diff =
  desiredTagsArr :: "string list"
  tags_to_add :: "string list"
  tags_to_remove :: "string list"
  doTags :: bool

definition computeTagDiff :: "string list \<Rightarrow> string \<Rightarrow> tag_diff" where
  "computeTagDiff cur desiredType =
     (let curLower = map normTag cur
      in if desiredType \<notin> set TYPE_TAGS
         then \<lparr>desiredTagsArr = cur, tags_to_add = [], tags_to_remove = [], doTags = False\<rparr>
         else
           let to_add = (if desiredType \<notin> set curLower then [desiredType] else []);
               to_remove = filter (\<lambda>t. t \<noteq> desiredType \<and> t \<in> set curLower) TYPE_TAGS;
               do_tags = (length to_add > 0 \<or> length to_remove > 0);
               cleaned = filter (\<lambda>t. normTag t \<notin> set TYPE_TAGS) cur;
               desired = (if desiredType \<notin> set (map normTag cleaned)
                          then cleaned @ [desiredType] else cleaned)
           in \<lparr>desiredTagsArr = desired, tags_to_add = to_add,
               tags_to_remove = to_remove, doTags = do_tags\<rparr>)"

text \<open>
  The reconciler of the script \<open>matrixify-run.mjs\<close>, whose \<open>normTag\<close> trims before it
  lowers the case, and the guarded call of it in the loop over the products:
  \<^verbatim>\<open>function normTag(t) { return String(t || "").trim().toLowerCase(); }
  function computeTagOps(currentTags, desiredType) {
    const cur = currentTags || [];
    const curLower = cur.map(normTag);
    const tags_to_add = [];
    const tags_to_remove = [];
    if (TYPE_TAGS.includes(desiredType) && !curLower.includes(desiredType)) tags_to_add.push(desiredType);
    for (const t of TYPE_TAGS) {
      if (t !== desiredType && curLower.includes(t)) tags_to_remove.push(t);
    }
    const cleaned = cur.filter(t => !TYPE_TAGS.includes(normTag(t)));
    const desiredTags = cleaned.slice();
    if (TYPE_TAGS.includes(desiredType) && !desiredTags.map(normTag).includes(desiredType)) desiredTags.push(desiredType);
    const doTags = (tags_to_add.length > 0 || tags_to_remove.length > 0);
    return { desiredTags, tags_to_add, tags_to_remove, doTags };
  }
  const tagOps = (!missingMC && ["used", "standard", "low-margin"].includes(type))
    ? computeTagOps(tags, type)
    : { desiredTags: tags, tags_to_add: [], tags_to_remove: [], doTags: false };\<close>
  The field \<open>desiredTags\<close> is the field \<open>desiredTagsArr\<close> of the record.
\<close>

definition normTag_run :: "string \<Rightarrow> string" where
  "normTag_run t = toLowerCase (trim t)"

definition computeTagOps :: "string list \<Rightarrow> string \<Rightarrow> tag_diff" where
  "computeTagOps cur desiredType =
     (let curLower = map normTag_run cur;
          to_add = (if desiredType \<in> set TYPE_TAGS \<and> desiredType \<notin> set curLower
                    then [desiredType] else []);
          to_remove = filter (\<lambda>t. t \<noteq> desiredType \<and> t \<in> set curLower) TYPE_TAGS;
          cleaned = filter (\<lambda>t. normTag_run t \<notin> set TYPE_TAGS) cur;
          desired = (if desiredType \<in> set TYPE_TAGS \<and> desiredType \<notin> set (map normTag_run cleaned)
                     then cleaned @ [desiredType] else cleaned);
          do_tags = (length to_add > 0 \<or> length to_remove > 0)
      in \<lparr>desiredTagsArr = desired, tags_to_add = to_add,
          tags_to_remove = to_remove, doTags = do_tags\<rparr>)"

definition tagOps :: "bool \<Rightarrow> string \<Rightarrow> string list \<Rightarrow> tag_diff" where
  "tagOps missing type tags =
     (if \<not> missing \<and> type \<in> set [''used'', ''standard'', ''low-margin'']
      then computeTagOps tags type
      else \<lparr>desiredTagsArr = tags, tags_to_add = [], tags_to_remove = [], doTags = False\<rparr>)"

section \<open>Pricing model\<close>

record cost_plus =
  P_alpha :: real
  P_beta :: real
  P_gamma :: real
  P_N :: real
  P_K0 :: real
  P_k :: real

record discount_depth =
  S_d_max :: real
  S_mu0 :: real
  S_beta_disc :: real
  S_gamma_M :: real
  S_rho :: real
  S_d_ref :: real
  S_M_ref :: real

definition U :: cost_plus where
  "U = \<lparr>P_alpha = 0.25, P_beta = 1.20, P_gamma = 0.20, P_N = 35.00, P_K0 = 200.0, P_k = 200.0\<rparr>"

definition LM :: cost_plus where
  "LM = \<lparr>P_alpha = 0.40, P_beta = 0.90, P_gamma = 0.00, P_N = 35.00, P_K0 = 500.0, P_k = 300.0\<rparr>"

definition STD :: discount_depth where
  "STD = \<lparr>S_d_max = 0.51, S_mu0 = 0.75, S_beta_disc = 0.00, S_gamma_M = 0.23,
          S_rho = 0.40, S_d_ref = 0.91, S_M_ref = 25000.0\<rparr>"

record pricing =
  price_new :: real
  as_low_as :: real

text \<open>
  \<open>computePricing\<close> returns \<open>{ ok: false }\<close> (here \<open>None\<close>) or
  \<open>{ ok: true, price_new, as_low_as }\<close>. The two \<open>if\<close> blocks assign to the variables
  \<open>price_new\<close> and \<open>as_low_as\<close> one after the other; \<open>costPlusPrice\<close> and \<open>hiddenPrice\<close> are
  the bodies of the blocks.
\<close>

definition costPlusPrice :: "real \<Rightarrow> real \<Rightarrow> cost_plus \<Rightarrow> real" where
  "costPlusPrice M C P =
     (let sM = 1 / (1 + exp ((M - P_K0 P) / P_k P));
          log10_MC = log 10 (M / C);
          price_raw = C * (1 + P_alpha P + P_beta P * log10_MC + P_gamma P * sM) + P_N P
      in min M price_raw)"

definition hiddenPrice :: "real \<Rightarrow> real \<Rightarrow> real" where
  "hiddenPrice M C =
     (let d = clamp (1 - C / M) 0 0.99;
          L_d = log 10 (1 / (1 - d));
          L_dref = log 10 (1 / (1 - S_d_ref STD));
          mu_d = S_mu0 STD + S_beta_disc STD * (L_d - L_dref);
          m_shape = (M / S_M_ref STD) powr (- S_gamma_M STD);
          A_M = (M * m_shape) / (1 - S_d_max STD);
          B_d = (1 - S_rho STD) * (1 + mu_d) * (1 - d) +
                S_rho STD * (1 + S_mu0 STD) * (1 - S_d_ref STD);
          P_hidden_raw = A_M * B_d
      in min M P_hidden_raw)"

definition computePricing :: "real \<Rightarrow> real \<Rightarrow> string \<Rightarrow> pricing option" where
  "computePricing M C type =
     (if \<not> (M > 0) \<or> \<not> (C > 0) then None
      else
        let (price1, low1) =
              (if type = ''used'' \<or> type = ''low-margin''
               then (costPlusPrice M C (if type = ''used'' then U else LM), 0)
               else (M, 0));
            (price2, low2) =
              (if type = ''standard''
               then (let P_hidden = hiddenPrice M C;
                         P_sale_min = (1 - S_d_max STD) * P_hidden
                     in (P_hidden, P_sale_min))
               else (price1, low1))
        in Some \<lparr>price_new = round2 price2, as_low_as = round2 low2\<rparr>)"

section \<open>Products and variants\<close>

record variant =
  variantId :: string
  pos :: real
  price :: "real option"
  compareAt :: "real option"
  cost :: "real option"

record product =
  productId :: string
  title :: string
  handle :: string
  status :: string
  tagsArr :: "string list"
  asLowAsCurrent :: string
  variants :: "variant list"

text \<open>
  The variant of an input row:
  \<^verbatim>\<open>const variantId = (cells[idx.VARIANT_ID] ?? "").trim().replace(/^"|"$/g, "");
  const pos = toNumberOrNull(cells[idx.VARIANT_POS]) ?? 999999;
  const price = toNumberOrNull(cells[idx.VARIANT_PRICE]);
  const compareAt = toNumberOrNull(cells[idx.VARIANT_COMPARE]);
  const cost = toNumberOrNull(cells[idx.VARIANT_COST]);\<close>
  A cell is \<open>None\<close> when the row has no such column.
\<close>

definition stripQuotes :: "string \<Rightarrow> string" where
  "stripQuotes s =
     (let a = (if s \<noteq> [] \<and> hd s = CHR 0x22 then tl s else s)
      in if a \<noteq> [] \<and> last a = CHR 0x22 then butlast a else a)"

definition readVariant ::
  "string option \<Rightarrow> string option \<Rightarrow> string option \<Rightarrow> string option \<Rightarrow> string option \<Rightarrow> variant" where
  "readVariant cId cPos cPrice cCompare cCost =
     \<lparr>variantId = stripQuotes (trim (case cId of None \<Rightarrow> [] | Some s \<Rightarrow> s)),
      pos = (case toNumberOrNull cPos of None \<Rightarrow> 999999 | Some n \<Rightarrow> n),
      price = toNumberOrNull cPrice,
      compareAt = toNumberOrNull cCompare,
      cost = toNumberOrNull cCost\<rparr>"

text \<open>
  \<^verbatim>\<open>const base = p.variants.reduce((best, v) => (!best || v.pos < best.pos) ? v : best, null);\<close>
\<close>

definition pickBase :: "variant list \<Rightarrow> variant option" where
  "pickBase vs =
     foldl (\<lambda>best v. case best of
                        None \<Rightarrow> Some v
                      | Some b \<Rightarrow> if pos v < pos b then Some v else Some b) None vs"

section \<open>Diff engine\<close>

text \<open>
  What the loop over the products computes for one product before it builds rows. For a
  product tagged \<open>cnfdnt\<close> the program writes a preview row of constants and goes on to the
  next product: no instruction is built, so the desired tags are the current ones.
\<close>

record decision =
  missingMC :: bool
  doDraft :: bool
  desiredType :: string
  desiredPriceNew :: "real option"
  desiredAsLowAs :: "real option"
  tagDiff :: tag_diff
  variantsToUpdate :: "string list"
  doPrice :: bool
  doMetafield :: bool
  needsChange :: bool

definition noTagDiff :: "string list \<Rightarrow> tag_diff" where
  "noTagDiff cur = \<lparr>desiredTagsArr = cur, tags_to_add = [], tags_to_remove = [], doTags = False\<rparr>"

definition decide :: "product \<Rightarrow> decision" where
  "decide p =
     (let base = pickBase (variants p)
      in if hasCnfdnt (tagsArr p)
         then \<lparr>missingMC = True, doDraft = False, desiredType = ''skip'',
               desiredPriceNew = None, desiredAsLowAs = None, tagDiff = noTagDiff (tagsArr p),
               variantsToUpdate = [], doPrice = False, doMetafield = False,
               needsChange = False\<rparr>
         else
           let msrpGross = (case base of None \<Rightarrow> 0
                            | Some b \<Rightarrow> (case compareAt b of None \<Rightarrow> 0 | Some x \<Rightarrow> x));
               M = (if msrpGross > 0 then msrpGross else 0);
               C = (case base of None \<Rightarrow> 0
                    | Some b \<Rightarrow> (case cost b of None \<Rightarrow> 0 | Some x \<Rightarrow> x));
               missing = (\<not> (M > 0 \<and> C > 0));
               do_draft = (missing \<and> toLowerCase (status p) \<noteq> ''draft'');
               dtype = (if missing then ''skip'' else determineTypeArigato M C (tagsArr p));
               pricing = (if \<not> missing \<and> dtype \<in> set TYPE_TAGS
                          then computePricing M C dtype else None);
               priceNew = (case pricing of None \<Rightarrow> None | Some pr \<Rightarrow> Some (price_new pr));
               asLowAs = (case pricing of
                            None \<Rightarrow> None
                          | Some pr \<Rightarrow> if dtype = ''standard'' \<and> as_low_as pr > 0
                                       then Some (as_low_as pr) else None);
               td = (if \<not> missing \<and> dtype \<in> set TYPE_TAGS
                     then computeTagDiff (tagsArr p) dtype else noTagDiff (tagsArr p));
               vtu = (if \<not> missing \<and> priceNew \<noteq> None
                      then map variantId
                             (filter (\<lambda>v. variantId v \<noteq> [] \<and> \<not> approxEqualMoney (price v) priceNew)
                                (variants p))
                      else []);
               do_price = (length vtu > 0);
               currentMf = toNumberOrNull (Some (asLowAsCurrent p));
               do_mf = (\<not> missing \<and> dtype = ''standard'' \<and> asLowAs \<noteq> None \<and>
                        \<not> (currentMf \<noteq> None \<and> approxEqualMoney currentMf asLowAs))
           in \<lparr>missingMC = missing, doDraft = do_draft, desiredType = dtype,
               desiredPriceNew = priceNew, desiredAsLowAs = asLowAs, tagDiff = td,
               variantsToUpdate = vtu, doPrice = do_price, doMetafield = do_mf,
               needsChange = (do_draft \<or> doTags td \<or> do_price \<or> do_mf)\<rparr>)"

section \<open>Instruction rows\<close>

record import_row =
  ID :: string
  Command :: string
  Tags :: string
  Tags_Command :: string
  Status :: string
  Variant_ID :: string
  Variant_Command :: string
  Variant_Price :: string
  Metafield :: string

fun joinWith :: "string \<Rightarrow> string list \<Rightarrow> string" where
  "joinWith sep [] = []"
| "joinWith sep [x] = x"
| "joinWith sep (x # y # ys) = x @ sep @ joinWith sep (y # ys)"

text \<open>
  \<^verbatim>\<open>const primaryVariantId = base?.variantId || (p.variants[0]?.variantId ?? "");\<close>
\<close>

definition primaryVariantId :: "product \<Rightarrow> string" where
  "primaryVariantId p =
     (let b = (case pickBase (variants p) of None \<Rightarrow> [] | Some v \<Rightarrow> variantId v)
      in if b \<noteq> [] then b
         else (case variants p of [] \<Rightarrow> [] | v # _ \<Rightarrow> variantId v))"

text \<open>
  The cell of the advertised-from column, the same on every row of a product:
  \<^verbatim>\<open>(!missingMC && desiredType === "standard" && desiredAsLowAs != null)
    ? String(desiredAsLowAs)
    : (p.asLowAsCurrent ? String(p.asLowAsCurrent) : "")\<close>
\<close>

definition mfCell :: "product \<Rightarrow> decision \<Rightarrow> string" where
  "mfCell p d =
     (if \<not> missingMC d \<and> desiredType d = ''standard'' \<and> desiredAsLowAs d \<noteq> None
      then jsString (desiredAsLowAs d)
      else (if asLowAsCurrent p \<noteq> [] then asLowAsCurrent p else []))"

definition secondaryRow :: "product \<Rightarrow> decision \<Rightarrow> string \<Rightarrow> string \<Rightarrow> import_row" where
  "secondaryRow p d mf vid =
     \<lparr>ID = productId p, Command = ''UPDATE'', Tags = [], Tags_Command = [], Status = [],
      Variant_ID = vid, Variant_Command = ''UPDATE'',
      Variant_Price = jsString (desiredPriceNew d), Metafield = mf\<rparr>"

text \<open>
  The rows of the full import of one product; \<open>Inl\<close> is the error thrown by the fail-fast
  check. As \<open>desiredPriceNew\<close> is \<open>pricing.price_new\<close> when \<open>pricing.ok\<close> and \<open>null\<close> otherwise,
  \<open>pricing.ok && desiredPriceNew != null\<close> is \<open>desiredPriceNew != null\<close>.
\<close>

definition fullImport :: "product \<Rightarrow> decision \<Rightarrow> string + import_row list" where
  "fullImport p d =
     (let fullDoTags = (\<not> missingMC d \<and> desiredType d \<in> set TYPE_TAGS);
          fullTagsCellOut = (if fullDoTags then joinWith '', '' (desiredTagsArr (tagDiff d)) else []);
          fullTagsCmdOut = (if fullDoTags then ''REPLACE'' else []);
          fullMfCell = mfCell p d;
          fullDoPrice = (\<not> missingMC d \<and> desiredType d \<in> set TYPE_TAGS \<and> desiredPriceNew d \<noteq> None);
          pvid = primaryVariantId p;
          fullPrimaryHasPriceUpdate = (fullDoPrice \<and> pvid \<noteq> []);
          fullPrimaryVariantIdOut = (if fullPrimaryHasPriceUpdate then pvid else []);
          fullPrimaryVariantCmdOut = (if fullPrimaryHasPriceUpdate then ''UPDATE'' else []);
          fullPrimaryVariantPriceOut =
            (if fullPrimaryHasPriceUpdate then jsString (desiredPriceNew d) else [])
      in if fullPrimaryVariantIdOut \<noteq> [] \<and> fullPrimaryVariantPriceOut = []
         then Inl (''FAIL-FAST: FULL: Variant ID gesetzt, aber Variant Price leer. Product ID=''
                   @ productId p)
         else Inr (\<lparr>ID = productId p, Command = ''UPDATE'', Tags = fullTagsCellOut,
                     Tags_Command = fullTagsCmdOut,
                     Status = (if doDraft d then ''Draft'' else []),
                     Variant_ID = fullPrimaryVariantIdOut,
                     Variant_Command = fullPrimaryVariantCmdOut,
                     Variant_Price = fullPrimaryVariantPriceOut,
                     Metafield = fullMfCell\<rparr> #
                   (if fullDoPrice
                    then map (secondaryRow p d fullMfCell)
                           (filter (\<lambda>vid. \<not> (vid = [] \<or> vid = pvid)) (map variantId (variants p)))
                    else [])))"

text \<open>The rows of the only-changes import of one product that needs a change.\<close>

definition onlyChangesImport :: "product \<Rightarrow> decision \<Rightarrow> string + import_row list" where
  "onlyChangesImport p d =
     (let mf = mfCell p d;
          tagsCellOut = (if doTags (tagDiff d) then joinWith '', '' (desiredTagsArr (tagDiff d)) else []);
          tagsCmdOut = (if doTags (tagDiff d) then ''REPLACE'' else []);
          pvid = primaryVariantId p;
          primaryHasPriceUpdate = (doPrice d \<and> pvid \<noteq> [] \<and> pvid \<in> set (variantsToUpdate d));
          primaryVariantIdOut = (if primaryHasPriceUpdate then pvid else []);
          primaryVariantCmdOut = (if primaryHasPriceUpdate then ''UPDATE'' else []);
          primaryVariantPriceOut =
            (if primaryHasPriceUpdate then jsString (desiredPriceNew d) else [])
      in if primaryVariantIdOut \<noteq> [] \<and> primaryVariantPriceOut = []
         then Inl (''FAIL-FAST: ONLY-CHANGES: Variant ID gesetzt, aber Variant Price leer. Product ID=''
                   @ productId p)
         else Inr (\<lparr>ID = productId p, Command = ''UPDATE'', Tags = tagsCellOut,
                     Tags_Command = tagsCmdOut,
                     Status = (if doDraft d then ''Draft'' else []),
                     Variant_ID = primaryVariantIdOut,
                     Variant_Command = primaryVariantCmdOut,
                     Variant_Price = primaryVariantPriceOut,
                     Metafield = mf\<rparr> #
                   (if doPrice d
                    then map (secondaryRow p d mf)
                           (filter (\<lambda>vid. \<not> (vid = [] \<or> vid = pvid)) (variantsToUpdate d))
                    else [])))"

text \<open>
  One turn of the loop: nothing for a product tagged \<open>cnfdnt\<close>; else the rows of the full
  import, and the rows of the only-changes import and a change item when the product needs
  a change.
\<close>

record change_item =
  item_productId :: string
  item_type :: string

record product_output =
  preview :: decision
  fullRows :: "import_row list"
  onlyChangesRows :: "import_row list"
  changeItem :: "change_item list"

definition processProduct :: "product \<Rightarrow> string + product_output" where
  "processProduct p =
     (let d = decide p
      in if hasCnfdnt (tagsArr p)
         then Inr \<lparr>preview = d, fullRows = [], onlyChangesRows = [], changeItem = []\<rparr>
         else case fullImport p d of
                Inl e \<Rightarrow> Inl e
              | Inr fr \<Rightarrow>
                  if \<not> needsChange d
                  then Inr \<lparr>preview = d, fullRows = fr, onlyChangesRows = [], changeItem = []\<rparr>
                  else (case onlyChangesImport p d of
                          Inl e \<Rightarrow> Inl e
                        | Inr cr \<Rightarrow>
                            Inr \<lparr>preview = d, fullRows = fr, onlyChangesRows = cr,
                                 changeItem = [\<lparr>item_productId = productId p,
                                               item_type = desiredType d\<rparr>]\<rparr>))"

record run_output =
  importFullRows :: "import_row list"
  importOnlyChangesRows :: "import_row list"
  changeItems :: "change_item list"

fun runProducts :: "product list \<Rightarrow> run_output \<Rightarrow> string + run_output" where
  "runProducts [] acc = Inr acc"
| "runProducts (p # ps) acc =
     (case processProduct p of
        Inl e \<Rightarrow> Inl e
      | Inr out \<Rightarrow>
          runProducts ps
            \<lparr>importFullRows = importFullRows acc @ fullRows out,
             importOnlyChangesRows = importOnlyChangesRows acc @ onlyChangesRows out,
             changeItems = changeItems acc @ changeItem out\<rparr>)"

definition runEngine :: "product list \<Rightarrow> string + run_output" where
  "runEngine ps = runProducts ps \<lparr>importFullRows = [], importOnlyChangesRows = [], changeItems = []\<rparr>"

section \<open>Sample selectors of the other scripts\<close>

text \<open>
  The selector of the script \<open>matrixify-run.mjs\<close>, over the ids of the changed products of
  each regime; the target count \<open>TEST_SIZE\<close> is taken to be a natural number:
  \<^verbatim>\<open>const pick = [];
  const wantOrder = ["standard", "low-margin", "used"];
  for (const t of wantOrder) {
    for (const pid of changeProductsByType[t] || []) {
      if (pick.length >= TEST_SIZE) break;
      if (!pick.includes(pid)) pick.push(pid);
    }
    if (pick.length >= TEST_SIZE) break;
  }
  if (pick.length < TEST_SIZE) {
    const all = [...standard, ...low-margin, ...used];
    for (const pid of all) {
      if (pick.length >= TEST_SIZE) break;
      if (!pick.includes(pid)) pick.push(pid);
    }
  }\<close>
\<close>

fun pushIds :: "nat \<Rightarrow> string list \<Rightarrow> string list \<Rightarrow> string list" where
  "pushIds TEST_SIZE [] pick = pick"
| "pushIds TEST_SIZE (pid # rest) pick =
     (if length pick \<ge> TEST_SIZE then pick
      else pushIds TEST_SIZE rest (if pid \<notin> set pick then pick @ [pid] else pick))"

fun pushGroups :: "nat \<Rightarrow> string list list \<Rightarrow> string list \<Rightarrow> string list" where
  "pushGroups TEST_SIZE [] pick = pick"
| "pushGroups TEST_SIZE (grp # rest) pick =
     (let pick1 = pushIds TEST_SIZE grp pick
      in if length pick1 \<ge> TEST_SIZE then pick1 else pushGroups TEST_SIZE rest pick1)"

definition pickByPriority :: "nat \<Rightarrow> string list \<Rightarrow> string list \<Rightarrow> string list \<Rightarrow> string list" where
  "pickByPriority TEST_SIZE standard lowMargin used =
     (let pick1 = pushGroups TEST_SIZE [standard, lowMargin, used] []
      in if length pick1 < TEST_SIZE
         then pushIds TEST_SIZE (standard @ lowMargin @ used) pick1
         else pick1)"

text \<open>
  The selector of the stand-alone processor, the target \<open>count\<close> again a natural number:
  \<^verbatim>\<open>function pickMixedTestProducts(list, count) {
    const draft = list.filter((x) => x.doDraft);
    const used = list.filter((x) => x.type === "used" && !x.doDraft);
    const std = list.filter((x) => x.type === "standard" && !x.doDraft);
    const lm = list.filter((x) => x.type === "low-margin" && !x.doDraft);
    const picked = [];
    const addSome = (arr, n) => {
      for (const x of arr) {
        if (picked.length >= count) break;
        if (picked.some((p) => p.productId === x.productId)) continue;
        picked.push(x);
        if (picked.filter((p) => p.productId === x.productId).length >= n) continue;
        if (picked.length >= count) break;
      }
    };
    addSome(draft, Math.min(3, count));
    addSome(used, Math.min(5, count));
    addSome(std, Math.min(8, count));
    addSome(lm, Math.min(8, count));
    for (const x of list) {
      if (picked.length >= count) break;
      if (picked.some((p) => p.productId === x.productId)) continue;
      picked.push(x);
    }
    return picked.slice(0, count);
  }\<close>
\<close>

record change_meta =
  meta_productId :: string
  meta_type :: string
  meta_doDraft :: bool

fun addSome :: "nat \<Rightarrow> change_meta list \<Rightarrow> nat \<Rightarrow> change_meta list \<Rightarrow> change_meta list" where
  "addSome count [] n picked = picked"
| "addSome count (x # arr) n picked =
     (if length picked \<ge> count then picked
      else if \<exists>p \<in> set picked. meta_productId p = meta_productId x then addSome count arr n picked
      else
        let picked1 = picked @ [x]
        in if length (filter (\<lambda>p. meta_productId p = meta_productId x) picked1) \<ge> n
           then addSome count arr n picked1
           else if length picked1 \<ge> count then picked1
           else addSome count arr n picked1)"

fun fillRemainder :: "nat \<Rightarrow> change_meta list \<Rightarrow> change_meta list \<Rightarrow> change_meta list" where
  "fillRemainder count [] picked = picked"
| "fillRemainder count (x # rest) picked =
     (if length picked \<ge> count then picked
      else if \<exists>p \<in> set picked. meta_productId p = meta_productId x
      then fillRemainder count rest picked
      else fillRemainder count rest (picked @ [x]))"

definition pickMixedTestProducts :: "change_meta list \<Rightarrow> nat \<Rightarrow> change_meta list" where
  "pickMixedTestProducts list count =
     (let draft = filter (\<lambda>x. meta_doDraft x) list;
          used = filter (\<lambda>x. meta_type x = ''used'' \<and> \<not> meta_doDraft x) list;
          std = filter (\<lambda>x. meta_type x = ''standard'' \<and> \<not> meta_doDraft x) list;
          lm = filter (\<lambda>x. meta_type x = ''low-margin'' \<and> \<not> meta_doDraft x) list;
          picked1 = addSome count draft (min 3 count) [];
          picked2 = addSome count used (min 5 count) picked1;
          picked3 = addSome count std (min 8 count) picked2;
          picked4 = addSome count lm (min 8 count) picked3;
          picked5 = fillRemainder count list picked4
      in take count picked5)"

section \<open>Sample selector of the engine\<close>

text \<open>
  \<^verbatim>\<open>const pick = (arr, n) => arr.slice(0, n);
  const used = changeItems.filter(x => x.type === "used");
  const std = changeItems.filter(x => x.type === "standard");
  const lm = changeItems.filter(x => x.type === "low-margin");
  const picked = [...pick(std, 8), ...pick(lm, 6), ...pick(used, 6)].slice(0, 20);
  const pickedIds = new Set(picked.map(x => x.productId));
  const testRows = importOnlyChangesRows.filter(r => pickedIds.has(r["ID"]));\<close>
\<close>

definition pick :: "'a list \<Rightarrow> nat \<Rightarrow> 'a list" where
  "pick arr n = take n arr"

definition picked :: "change_item list \<Rightarrow> change_item list" where
  "picked items =
     (let used = filter (\<lambda>x. item_type x = ''used'') items;
          std = filter (\<lambda>x. item_type x = ''standard'') items;
          lm = filter (\<lambda>x. item_type x = ''low-margin'') items
      in take 20 (pick std 8 @ pick lm 6 @ pick used 6))"

definition testRows :: "change_item list \<Rightarrow> import_row list \<Rightarrow> import_row list" where
  "testRows items rows =
     (let pickedIds = set (map item_productId (picked items))
      in filter (\<lambda>r. ID r \<in> pickedIds) rows)"

section \<open>The instructions of a run, applied\<close>

text \<open>
  The export that a second run would read once the instructions of the first run are in
  force: the status is the draft marker when a draft is scheduled, the tags are the desired
  tags (when \<open>always\<close>, as the full import writes them; else only when a tag change is
  scheduled, as the only-changes import does), the advertised-from cell is the new value
  when it is scheduled, and every variant scheduled for a price update has the new price.
\<close>

definition simulateApplied :: "bool \<Rightarrow> product \<Rightarrow> decision \<Rightarrow> product" where
  "simulateApplied always p d =
     p\<lparr>status := (if doDraft d then ''Draft'' else status p),
       tagsArr := (if always \<or> doTags (tagDiff d) then desiredTagsArr (tagDiff d) else tagsArr p),
       asLowAsCurrent := (if doMetafield d then jsString (desiredAsLowAs d) else asLowAsCurrent p),
       variants := map (\<lambda>v. if variantId v \<in> set (variantsToUpdate d)
                             then v\<lparr>price := desiredPriceNew d\<rparr> else v) (variants p)\<rparr>"

section \<open>Helper lemmas\<close>

lemmas tag_eval = normTag_def trim_def toLowerCase_def lowerChar_def lowerTable_def isWhiteSpace_def


lemma normTag_type_tag [simp]: "t \<in> set TYPE_TAGS \<Longrightarrow> normTag t = t"
  by (auto simp: TYPE_TAGS_def tag_eval)

lemma cleaned_no_type:
  "d \<in> set TYPE_TAGS \<Longrightarrow> d \<notin> set (map normTag (filter (\<lambda>t. normTag t \<notin> set TYPE_TAGS) cur))"
  by auto

lemma computeTagDiff_type:
  assumes "d \<in> set TYPE_TAGS"
  shows "computeTagDiff cur d =
     \<lparr>desiredTagsArr = filter (\<lambda>t. normTag t \<notin> set TYPE_TAGS) cur @ [d],
      tags_to_add = (if d \<in> normTag ` set cur then [] else [d]),
      tags_to_remove = filter (\<lambda>t. t \<noteq> d \<and> t \<in> normTag ` set cur) TYPE_TAGS,
      doTags = (d \<notin> normTag ` set cur \<or> (\<exists>t \<in> set TYPE_TAGS. t \<noteq> d \<and> t \<in> normTag ` set cur))\<rparr>"
  using assms cleaned_no_type[OF assms, of cur]
  by (auto simp: computeTagDiff_def Let_def filter_empty_conv)





lemma computePricing_Some:
  assumes "M > 0" "C > 0"
  shows "computePricing M C type =
    Some \<lparr>price_new = round2 (if type = ''standard'' then hiddenPrice M C
                              else if type = ''used'' then costPlusPrice M C U
                              else if type = ''low-margin'' then costPlusPrice M C LM else M),
          as_low_as = round2 (if type = ''standard'' then (1 - S_d_max STD) * hiddenPrice M C else 0)\<rparr>"
  using assms by (simp add: computePricing_def Let_def)

subsection \<open>The reconciler of the script\<close>

lemma lowerTable_no_space:
  "list_all (\<lambda>(c, d). \<not> isWhiteSpace c \<and> \<not> isWhiteSpace d) lowerTable"
  by (simp add: lowerTable_def isWhiteSpace_def)

lemma isWhiteSpace_lowerChar: "isWhiteSpace (lowerChar c) = isWhiteSpace c"
proof (cases "map_of lowerTable c")
  case None
  then show ?thesis by (simp add: lowerChar_def)
next
  case (Some d)
  then have "(c, d) \<in> set lowerTable" by (rule map_of_SomeD)
  with lowerTable_no_space have "\<not> isWhiteSpace c \<and> \<not> isWhiteSpace d"
    unfolding list_all_iff by blast
  with Some show ?thesis by (simp add: lowerChar_def)
qed

lemma dropWhile_lower:
  "dropWhile isWhiteSpace (map lowerChar s) = map lowerChar (dropWhile isWhiteSpace s)"
  by (induction s) (simp_all add: isWhiteSpace_lowerChar)

lemma normTag_run_eq: "normTag_run t = normTag t"
  by (simp add: normTag_run_def normTag_def trim_def toLowerCase_def dropWhile_lower rev_map)

lemma computeTagOps_type:
  assumes "d \<in> set TYPE_TAGS"
  shows "computeTagOps cur d = computeTagDiff cur d"
  using assms by (simp add: computeTagOps_def computeTagDiff_def normTag_run_eq Let_def)

lemma tagOps_skip: "tagOps missing ''skip'' cur = noTagDiff cur"
  by (simp add: tagOps_def noTagDiff_def)

lemma tagOps_type: "d \<in> set TYPE_TAGS \<Longrightarrow> tagOps False d cur = computeTagDiff cur d"
  using computeTagOps_type[of d cur] by (simp add: tagOps_def TYPE_TAGS_def)

subsection \<open>Printing and reading a number of cents\<close>

lemma digit_facts:
  "list_all (\<lambda>d. digitValue (digitChar d) = Some d \<and> digitChar d \<in> set ''0123456789'') [0,1,2,3,4,5,6,7,8,9]"
  by (simp add: digitValue_def digitChar_def digitTable_def lowerChar_def lowerTable_def)

lemma lt10: "(d::nat) < 10 \<Longrightarrow> d \<in> set [0,1,2,3,4,5,6,7,8,9]"
  by (simp; arith)

lemma digitValue_digitChar: "d < 10 \<Longrightarrow> digitValue (digitChar d) = Some d"
  using digit_facts lt10[of d] unfolding list_all_iff by blast

lemma digitChar_digit: "d < 10 \<Longrightarrow> digitChar d \<in> set ''0123456789''"
  using digit_facts lt10[of d] unfolding list_all_iff by blast

lemma digit_char_props:
  assumes "c \<in> set ''0123456789''"
  shows "\<not> isWhiteSpace c" "c \<noteq> CHR '',''" "c \<noteq> CHR ''.''" "c \<noteq> CHR ''e''" "c \<noteq> CHR ''E''"
    "c \<noteq> CHR ''-''" "c \<noteq> CHR ''+''" "lowerChar c \<noteq> CHR ''x''" "lowerChar c \<noteq> CHR ''o''"
    "lowerChar c \<noteq> CHR ''b''"
  using assms by (auto simp: isWhiteSpace_def lowerChar_def lowerTable_def)

lemma showNat_digits: "set (showNat n) \<subseteq> set ''0123456789''"
proof (induction n rule: showNat.induct)
  case (1 n)
  show ?case
  proof (cases "n < 10")
    case True
    then show ?thesis using digitChar_digit[of n] by (subst showNat.simps) simp
  next
    case False
    then show ?thesis using 1 digitChar_digit[of "n mod 10"]
      by (subst showNat.simps) simp
  qed
qed

lemma showNat_nonempty: "showNat n \<noteq> []"
  by (subst showNat.simps) simp

lemma digitsIn_append:
  "digitsIn b (xs @ ys) acc = (case digitsIn b xs acc of None \<Rightarrow> None | Some a \<Rightarrow> digitsIn b ys a)"
  by (induction xs arbitrary: acc) (auto split: option.splits)

lemma digitsIn_showNat: "digitsIn 10 (showNat n) 0 = Some n"
proof (induction n rule: showNat.induct)
  case (1 n)
  show ?case
  proof (cases "n < 10")
    case True
    then show ?thesis by (subst showNat.simps) (simp add: digitValue_digitChar)
  next
    case False
    then show ?thesis using 1
      by (subst showNat.simps) (simp add: digitsIn_append digitValue_digitChar)
  qed
qed

lemma splitAt_none: "\<forall>c \<in> set u. \<not> P c \<Longrightarrow> splitAt P u = (u, None)"
  by (induction u) auto

lemma splitAt_first: "\<forall>c \<in> set a. \<not> P c \<Longrightarrow> P d \<Longrightarrow> splitAt P (a @ d # r) = (a, Some r)"
  by (induction a) auto

lemma replaceComma_none: "CHR '','' \<notin> set s \<Longrightarrow> replaceComma s = s"
  by (induction s) auto

lemma trim_none: "\<forall>c \<in> set s. \<not> isWhiteSpace c \<Longrightarrow> trim s = s"
proof -
  assume a: "\<forall>c \<in> set s. \<not> isWhiteSpace c"
  have "dropWhile isWhiteSpace s = s" using a by (cases s) auto
  moreover have "\<forall>c \<in> set (rev s). \<not> isWhiteSpace c" using a by simp
  then have "dropWhile isWhiteSpace (rev s) = rev s" by (cases "rev s") auto
  ultimately show ?thesis by (simp add: trim_def)
qed

lemma radixPrefix_none:
  "\<forall>c \<in> set t. lowerChar c \<noteq> CHR ''x'' \<and> lowerChar c \<noteq> CHR ''o'' \<and> lowerChar c \<noteq> CHR ''b''
   \<Longrightarrow> radixPrefix t = None"
proof (cases t)
  case Nil
  then show ?thesis by (simp add: radixPrefix_def)
next
  case (Cons c0 t')
  assume a: "\<forall>c \<in> set t. lowerChar c \<noteq> CHR ''x'' \<and> lowerChar c \<noteq> CHR ''o'' \<and> lowerChar c \<noteq> CHR ''b''"
  show ?thesis
  proof (cases t')
    case Nil
    with Cons show ?thesis by (simp add: radixPrefix_def)
  next
    case (Cons c1 ds)
    with \<open>t = c0 # t'\<close> a show ?thesis by (simp add: radixPrefix_def)
  qed
qed

text \<open>The unsigned decimal of a number of cents.\<close>

lemma mantissa_cents:
  fixes a :: nat
  defines "u \<equiv> showNat (a div 100) @
         (if a mod 100 = 0 then []
          else CHR ''.'' # digitChar (a mod 100 div 10) #
               (if a mod 100 mod 10 = 0 then [] else [digitChar (a mod 100 mod 10)]))"
  shows "mantissa u = Some (real a / 100)"
proof -
  have nodot: "\<forall>c \<in> set (showNat (a div 100)). \<not> (c = CHR ''.'')"
    using showNat_digits[of "a div 100"] digit_char_props(3) by blast
  have d1: "a mod 100 div 10 < 10" by simp
  have d2: "a mod 100 mod 10 < 10" by simp
  have split: "real a = real (a div 100) * 100 + real (a mod 100)"
    by (metis div_mult_mod_eq of_nat_add of_nat_mult of_nat_numeral)
  show ?thesis
  proof (cases "a mod 100 = 0")
    case True
    then have "u = showNat (a div 100)" by (simp add: u_def)
    then show ?thesis using True split
      by (simp add: mantissa_def splitAt_none[OF nodot] showNat_nonempty digitsIn_showNat)
  next
    case False
    show ?thesis
    proof (cases "a mod 100 mod 10 = 0")
      case True
      then have fp: "real (a mod 100) = real (a mod 100 div 10) * 10"
        by (metis mod_0_imp_dvd dvd_div_mult_self of_nat_mult of_nat_numeral)
      have "u = showNat (a div 100) @ CHR ''.'' # [digitChar (a mod 100 div 10)]"
        using False True by (simp add: u_def)
      then have "mantissa u = Some (real (a div 100) + real (a mod 100 div 10) / 10)"
        using d1
        by (simp add: mantissa_def splitAt_first[OF nodot] showNat_nonempty digitsIn_showNat
            digitValue_digitChar[OF d1])
      then show ?thesis using split fp by (simp add: field_simps)
    next
      case f2: False
      have fp: "real (a mod 100) = real (a mod 100 div 10) * 10 + real (a mod 100 mod 10)"
        by (metis div_mult_mod_eq of_nat_add of_nat_mult of_nat_numeral)
      have "u = showNat (a div 100) @ CHR ''.'' # [digitChar (a mod 100 div 10), digitChar (a mod 100 mod 10)]"
        using False f2 by (simp add: u_def)
      then have "mantissa u = Some (real (a div 100) +
            real (a mod 100 div 10 * 10 + a mod 100 mod 10) / 10 ^ 2)"
        using d1 d2
        by (simp add: mantissa_def splitAt_first[OF nodot] showNat_nonempty digitsIn_showNat
            digitValue_digitChar[OF d1] digitValue_digitChar[OF d2])
      then show ?thesis using split fp by (simp add: field_simps)
    qed
  qed
qed



lemma cents_chars:
  fixes a :: nat
  defines "u \<equiv> showNat (a div 100) @
         (if a mod 100 = 0 then []
          else CHR ''.'' # digitChar (a mod 100 div 10) #
               (if a mod 100 mod 10 = 0 then [] else [digitChar (a mod 100 mod 10)]))"
  shows "\<forall>c \<in> set u. c \<in> set ''0123456789'' \<or> c = CHR ''.''"
    and "u \<noteq> []" and "hd u \<in> set ''0123456789''"
proof -
  define D where "D = set ''0123456789''"
  have d1: "digitChar (a mod 100 div 10) \<in> D" unfolding D_def by (rule digitChar_digit) simp
  have d2: "digitChar (a mod 100 mod 10) \<in> D" unfolding D_def by (rule digitChar_digit) simp
  have d0: "set (showNat (a div 100)) \<subseteq> D" unfolding D_def by (rule showNat_digits)
  have "\<forall>c \<in> set u. c \<in> D \<or> c = CHR ''.''"
    using d0 d1 d2 unfolding u_def by auto
  then show "\<forall>c \<in> set u. c \<in> set ''0123456789'' \<or> c = CHR ''.''" unfolding D_def .
  show "u \<noteq> []" by (simp add: u_def showNat_nonempty)
  have "hd u = hd (showNat (a div 100))" by (simp add: u_def showNat_nonempty)
  also have "\<dots> \<in> set (showNat (a div 100))" by (simp add: showNat_nonempty)
  finally have "hd u \<in> D" using d0 by blast
  then show "hd u \<in> set ''0123456789''" unfolding D_def .
qed



lemma plain_char_facts:
  "list_all (\<lambda>c. \<not> isWhiteSpace c \<and> c \<noteq> CHR '','' \<and> c \<noteq> CHR ''e'' \<and> c \<noteq> CHR ''E'' \<and>
    lowerChar c \<noteq> CHR ''x'' \<and> lowerChar c \<noteq> CHR ''o'' \<and> lowerChar c \<noteq> CHR ''b'') ''0123456789.-''"
  by (simp add: isWhiteSpace_def lowerChar_def lowerTable_def)

lemma plain_char_props:
  assumes "c \<in> set ''0123456789'' \<or> c = CHR ''.'' \<or> c = CHR ''-''"
  shows "\<not> isWhiteSpace c \<and> c \<noteq> CHR '','' \<and> c \<noteq> CHR ''e'' \<and> c \<noteq> CHR ''E'' \<and>
    lowerChar c \<noteq> CHR ''x'' \<and> lowerChar c \<noteq> CHR ''o'' \<and> lowerChar c \<noteq> CHR ''b''"
proof -
  have "c \<in> set ''0123456789.-''" using assms by auto
  with plain_char_facts show ?thesis unfolding list_all_iff by (rule bspec)
qed

lemma jsNumber_plain:
  assumes all: "\<forall>c \<in> set s. c \<in> set ''0123456789'' \<or> c = CHR ''.'' \<or> c = CHR ''-''"
    and ne: "s \<noteq> []"
  shows "jsNumber (replaceComma s) =
     (if hd s = CHR ''-'' then map_option uminus (mantissa (tl s))
      else if hd s = CHR ''+'' then mantissa (tl s) else mantissa s)"
proof -
  have p: "\<not> isWhiteSpace c \<and> c \<noteq> CHR '','' \<and> c \<noteq> CHR ''e'' \<and> c \<noteq> CHR ''E'' \<and>
    lowerChar c \<noteq> CHR ''x'' \<and> lowerChar c \<noteq> CHR ''o'' \<and> lowerChar c \<noteq> CHR ''b''"
    if "c \<in> set s" for c
    by (rule plain_char_props) (rule bspec[OF all that])
  have nc: "CHR '','' \<notin> set s"
    using p[of "CHR '',''"] by blast
  have rc: "replaceComma s = s" by (rule replaceComma_none[OF nc])
  have ws: "\<forall>c \<in> set s. \<not> isWhiteSpace c"
    using p by blast
  have tr: "trim s = s" by (rule trim_none[OF ws])
  have rx: "\<forall>c \<in> set s. lowerChar c \<noteq> CHR ''x'' \<and> lowerChar c \<noteq> CHR ''o'' \<and> lowerChar c \<noteq> CHR ''b''"
    using p by blast
  have rp: "radixPrefix s = None" by (rule radixPrefix_none[OF rx])
  have noE: "\<forall>c \<in> set s. \<not> (c = CHR ''e'' \<or> c = CHR ''E'')"
    using p by blast
  have sub: "c \<in> set s" if "c \<in> set (tl s)" for c
    using that ne by (cases s) (simp, simp)
  have noE_tl: "\<forall>c \<in> set (tl s). \<not> (c = CHR ''e'' \<or> c = CHR ''E'')"
    using noE sub by blast
  have a: "strUnsignedDecimal s = mantissa s"
    unfolding strUnsignedDecimal_def splitAt_none[OF noE] by simp
  have b: "strUnsignedDecimal (tl s) = mantissa (tl s)"
    unfolding strUnsignedDecimal_def splitAt_none[OF noE_tl] by simp
  have "jsNumber s =
     (if hd s = CHR ''-'' then map_option uminus (strUnsignedDecimal (tl s))
      else if hd s = CHR ''+'' then strUnsignedDecimal (tl s) else strUnsignedDecimal s)"
    unfolding jsNumber_def Let_def tr rp using ne by simp
  then show ?thesis unfolding rc a b .
qed

lemma jsNumber_numberToString:
  "jsNumber (replaceComma (numberToString (of_int k / 100))) = Some (of_int k / 100)"
proof -
  define a where "a = nat \<bar>k\<bar>"
  define u where "u = showNat (a div 100) @
         (if a mod 100 = 0 then []
          else CHR ''.'' # digitChar (a mod 100 div 10) #
               (if a mod 100 mod 10 = 0 then [] else [digitChar (a mod 100 mod 10)]))"
  have fl: "\<lfloor>(of_int k / 100 :: real) * 100\<rfloor> = k" by simp
  have s: "numberToString (of_int k / 100) = (if k < 0 then ''-'' else []) @ u"
    unfolding numberToString_def fl Let_def a_def[symmetric] u_def ..
  have m: "mantissa u = Some (real a / 100)"
    unfolding u_def by (rule mantissa_cents)
  have c1: "\<forall>c \<in> set u. c \<in> set ''0123456789'' \<or> c = CHR ''.''"
    unfolding u_def by (rule cents_chars(1))
  have c2: "u \<noteq> []" unfolding u_def by (rule cents_chars(2))
  have c3: "hd u \<in> set ''0123456789''" unfolding u_def by (rule cents_chars(3))
  show ?thesis
  proof (cases "k < 0")
    case True
    then have s': "numberToString (of_int k / 100) = CHR ''-'' # u" using s by simp
    have "\<forall>c \<in> set (CHR ''-'' # u). c \<in> set ''0123456789'' \<or> c = CHR ''.'' \<or> c = CHR ''-''"
      using c1 by (metis set_ConsD)
    from jsNumber_plain[OF this] have "jsNumber (replaceComma (CHR ''-'' # u)) = Some (- (real a / 100))"
      by (simp add: m)
    moreover have "real a = - of_int k" using True by (simp add: a_def)
    ultimately show ?thesis by (simp add: s')
  next
    case False
    then have s': "numberToString (of_int k / 100) = u" using s by simp
    have all: "\<forall>c \<in> set u. c \<in> set ''0123456789'' \<or> c = CHR ''.'' \<or> c = CHR ''-''"
      using c1 by blast
    have "list_all (\<lambda>c. c \<noteq> CHR ''-'' \<and> c \<noteq> CHR ''+'') ''0123456789''" by simp
    with c3 have hd: "hd u \<noteq> CHR ''-'' \<and> hd u \<noteq> CHR ''+''" unfolding list_all_iff by (rule bspec[rotated])
    from jsNumber_plain[OF all c2] hd have "jsNumber (replaceComma u) = Some (real a / 100)"
      by (simp add: m)
    moreover have "real a = of_int k" using False by (simp add: a_def)
    ultimately show ?thesis by (simp add: s')
  qed
qed

lemma round2_cents: "round2 x = of_int \<lfloor>x * 100 + 1 / 2\<rfloor> / 100"
  by (simp add: round2_def)

lemma toNumberOrNull_round2:
  "toNumberOrNull (Some (numberToString (round2 x))) = Some (round2 x)"
  unfolding toNumberOrNull_def round2_cents option.case by (rule jsNumber_numberToString)

lemma numberToString_nonempty: "numberToString x \<noteq> []"
  by (simp add: numberToString_def Let_def showNat_nonempty)

lemma jsString_nonempty: "jsString x \<noteq> []"
  by (cases x) (simp_all add: jsString_def numberToString_nonempty)

lemma showNat_small: "n < 10 \<Longrightarrow> showNat n = [digitChar n]"
  by (subst showNat.simps) simp

lemma showNat_big: "\<not> n < 10 \<Longrightarrow> showNat n = showNat (n div 10) @ [digitChar (n mod 10)]"
  by (subst showNat.simps) simp

lemmas showNat_eval = showNat_small showNat_big

lemmas num_eval = toNumberOrNull_def jsNumber_def trim_def isWhiteSpace_def radixPrefix_def
  lowerChar_def lowerTable_def strUnsignedDecimal_def mantissa_def digitValue_def digitTable_def
  signedInteger_def

lemma three_filters_le:
  assumes "\<And>x. \<not> (P x \<and> Q x)" "\<And>x. \<not> (P x \<and> R x)" "\<And>x. \<not> (Q x \<and> R x)"
  shows "length (filter P xs) + length (filter Q xs) + length (filter R xs) \<le> length xs"
  using assms by (induction xs) auto

lemmas pos_eval = readVariant_def num_eval stripQuotes_def

subsection \<open>Instruction rows\<close>

lemma fullImport_Inr:
  "\<exists>rows. fullImport p d = Inr rows \<and> rows \<noteq> [] \<and>
     (\<forall>r \<in> set rows. Variant_ID r \<noteq> [] \<longrightarrow> Variant_Price r \<noteq> [])"
  by (auto simp: fullImport_def Let_def secondaryRow_def jsString_nonempty)

lemma onlyChangesImport_Inr:
  "\<exists>rows. onlyChangesImport p d = Inr rows \<and> rows \<noteq> [] \<and>
     (\<forall>r \<in> set rows. Variant_ID r \<noteq> [] \<longrightarrow> Variant_Price r \<noteq> [])"
  by (auto simp: onlyChangesImport_def Let_def secondaryRow_def jsString_nonempty)

lemma processProduct_Inr:
  "\<exists>out. processProduct p = Inr out \<and> preview out = decide p \<and>
     (fullRows out = [] \<or> fullImport p (decide p) = Inr (fullRows out)) \<and>
     (onlyChangesRows out = [] \<or> onlyChangesImport p (decide p) = Inr (onlyChangesRows out))"
proof -
  obtain fr where fr: "fullImport p (decide p) = Inr fr" using fullImport_Inr by blast
  obtain cr where cr: "onlyChangesImport p (decide p) = Inr cr" using onlyChangesImport_Inr by blast
  show ?thesis by (simp add: processProduct_def Let_def fr cr)
qed

lemma processProduct_rows_ok:
  assumes "processProduct p = Inr out"
  shows "\<forall>r \<in> set (fullRows out) \<union> set (onlyChangesRows out).
           Variant_ID r \<noteq> [] \<longrightarrow> Variant_Price r \<noteq> []"
proof -
  from processProduct_Inr[of p] assms
  have f: "fullRows out = [] \<or> fullImport p (decide p) = Inr (fullRows out)"
    and c: "onlyChangesRows out = [] \<or> onlyChangesImport p (decide p) = Inr (onlyChangesRows out)"
    by auto
  have "\<forall>r \<in> set (fullRows out). Variant_ID r \<noteq> [] \<longrightarrow> Variant_Price r \<noteq> []"
    using f fullImport_Inr[of p "decide p"] by auto
  moreover have "\<forall>r \<in> set (onlyChangesRows out). Variant_ID r \<noteq> [] \<longrightarrow> Variant_Price r \<noteq> []"
    using c onlyChangesImport_Inr[of p "decide p"] by auto
  ultimately show ?thesis by blast
qed

lemma runProducts_ok:
  assumes "\<forall>r \<in> set (importFullRows acc) \<union> set (importOnlyChangesRows acc).
             Variant_ID r \<noteq> [] \<longrightarrow> Variant_Price r \<noteq> []"
  shows "\<exists>out. runProducts ps acc = Inr out \<and>
           (\<forall>r \<in> set (importFullRows out) \<union> set (importOnlyChangesRows out).
              Variant_ID r \<noteq> [] \<longrightarrow> Variant_Price r \<noteq> [])"
  using assms
proof (induction ps arbitrary: acc)
  case Nil
  then show ?case by simp
next
  case (Cons p ps)
  obtain out where out: "processProduct p = Inr out" using processProduct_Inr by blast
  let ?acc = "\<lparr>importFullRows = importFullRows acc @ fullRows out,
             importOnlyChangesRows = importOnlyChangesRows acc @ onlyChangesRows out,
             changeItems = changeItems acc @ changeItem out\<rparr>"
  have "\<forall>r \<in> set (importFullRows ?acc) \<union> set (importOnlyChangesRows ?acc).
             Variant_ID r \<noteq> [] \<longrightarrow> Variant_Price r \<noteq> []"
    using Cons.prems processProduct_rows_ok[OF out] by auto
  from Cons.IH[OF this] show ?case by (simp add: out)
qed

lemma onlyChangesImport_secondary:
  assumes "onlyChangesImport p d = Inr rows"
  shows "rows \<noteq> [] \<and> Metafield (hd rows) = mfCell p d \<and>
    (\<forall>r \<in> set (tl rows).
       Tags r = [] \<and> Tags_Command r = [] \<and> Status r = [] \<and>
       Variant_ID r \<in> set (variantsToUpdate d) \<and> Variant_ID r \<noteq> [] \<and>
       Variant_ID r \<noteq> primaryVariantId p \<and> Variant_Command r = ''UPDATE'' \<and>
       Variant_Price r = jsString (desiredPriceNew d) \<and> Metafield r = mfCell p d)"
  using assms
  by (auto simp: onlyChangesImport_def Let_def secondaryRow_def jsString_nonempty split: if_splits)

lemma fullImport_secondary:
  assumes "fullImport p d = Inr rows"
  shows "rows \<noteq> [] \<and> Metafield (hd rows) = mfCell p d \<and>
    (\<forall>r \<in> set (tl rows).
       Tags r = [] \<and> Tags_Command r = [] \<and> Status r = [] \<and>
       Variant_ID r \<in> variantId ` set (variants p) \<and> Variant_ID r \<noteq> [] \<and>
       Variant_ID r \<noteq> primaryVariantId p \<and> Variant_Command r = ''UPDATE'' \<and>
       Variant_Price r = jsString (desiredPriceNew d) \<and> Metafield r = mfCell p d)"
  using assms
  by (auto simp: fullImport_def Let_def secondaryRow_def jsString_nonempty split: if_splits)

subsection \<open>Binary floating point\<close>

text \<open>The exponent of a number, and the distance of a number from its rounding.\<close>

lemma log2floor_bounds: "0 < n \<Longrightarrow> 2 ^ log2floor n \<le> n \<and> n < 2 ^ Suc (log2floor n)"
proof (induction n rule: log2floor.induct)
  case (1 n)
  show ?case
  proof (cases "n < 2")
    case True
    with 1 show ?thesis by (simp add: log2floor.simps[of n])
  next
    case False
    then have "0 < n div 2" by simp
    from 1(1)[OF False this] have "2 ^ log2floor (n div 2) \<le> n div 2" "n div 2 < 2 ^ Suc (log2floor (n div 2))"
      by simp_all
    then show ?thesis using False by (simp add: log2floor.simps[of n]) linarith
  qed
qed

lemma roundTiesEven_err: "\<bar>of_int (roundTiesEven y) - y\<bar> \<le> 1 / 2"
  unfolding roundTiesEven_def Let_def by (auto simp: abs_le_iff)


lemma binade_bounds:
  assumes "x \<noteq> 0"
  shows "2 powi binade x \<le> \<bar>x\<bar> \<and> \<bar>x\<bar> < 2 powi (binade x + 1)"
proof (cases "1 \<le> \<bar>x\<bar>")
  case True
  define n where "n = nat \<lfloor>\<bar>x\<bar>\<rfloor>"
  have f1: "1 \<le> \<lfloor>\<bar>x\<bar>\<rfloor>" using True by (simp add: le_floor_iff)
  then have rn: "real n = of_int \<lfloor>\<bar>x\<bar>\<rfloor>" unfolding n_def by simp
  have n: "0 < n" "real n \<le> \<bar>x\<bar>" "\<bar>x\<bar> < real n + 1"
    using f1 unfolding rn by (simp add: n_def, linarith, linarith)
  have b: "binade x = int (log2floor n)" using True by (simp add: binade_def n_def)
  define k where "k = log2floor n"
  from log2floor_bounds[OF n(1)] have a: "2 ^ k \<le> n" "Suc n \<le> 2 * 2 ^ k"
    unfolding k_def by simp_all
  have "(2::real) ^ k \<le> real n" using of_nat_mono[OF a(1), where 'a = real] by simp
  moreover have "real n + 1 \<le> 2 * 2 ^ k" using of_nat_mono[OF a(2), where 'a = real] by simp
  ultimately have lo: "2 ^ k \<le> \<bar>x\<bar>" and hi: "\<bar>x\<bar> < 2 * 2 ^ k"
    using n by linarith+
  have "int k + 1 = int (Suc k)" by simp
  then have p2: "(2::real) powi (int k + 1) = 2 * 2 ^ k"
    by (simp only: power_int_of_nat power_Suc)
  show ?thesis unfolding b k_def[symmetric] p2 using lo hi by (simp add: power_int_of_nat)
next
  case False
  define y where "y = 1 / \<bar>x\<bar>"
  have y: "1 < y" "\<bar>x\<bar> = 1 / y" "0 < \<bar>x\<bar>" using False assms unfolding y_def by simp_all
  define m where "m = nat (\<lceil>y\<rceil> - 1)"
  have c1: "2 \<le> \<lceil>y\<rceil>" using y(1) by (simp add: le_ceiling_iff)
  then have rm: "real m = of_int \<lceil>y\<rceil> - 1" unfolding m_def by simp
  have m: "0 < m" "real m < y" "y \<le> real m + 1"
    using c1 unfolding rm by (simp add: m_def, linarith, linarith)
  define k where "k = log2floor m"
  have b: "binade x = - int (Suc k)" using False by (simp add: binade_def m_def y_def k_def)
  from log2floor_bounds[OF m(1)] have a: "2 ^ k \<le> m" "Suc m \<le> 2 * 2 ^ k"
    unfolding k_def by simp_all
  have "(2::real) ^ k \<le> real m" using of_nat_mono[OF a(1), where 'a = real] by simp
  moreover have "real m + 1 \<le> 2 * 2 ^ k" using of_nat_mono[OF a(2), where 'a = real] by simp
  ultimately have yb: "2 ^ k < y" "y \<le> 2 * 2 ^ k" using m by linarith+
  have lo: "1 / (2 * 2 ^ k) \<le> \<bar>x\<bar>" unfolding y(2) using yb(2) y(1)
    by (intro divide_left_mono) simp_all
  have "0 < y * 2 ^ k" using y(1) by simp
  then have hi: "\<bar>x\<bar> < 1 / 2 ^ k" unfolding y(2) using yb(1)
    by (intro divide_strict_left_mono) simp_all
  have p1: "(2::real) powi (- int (Suc k)) = 1 / (2 * 2 ^ k)"
    by (simp only: power_int_minus_divide power_int_of_nat power_Suc)
  have "- int (Suc k) + 1 = - int k" by simp
  then have p2: "(2::real) powi (- int (Suc k) + 1) = 1 / 2 ^ k"
    by (simp only: power_int_minus_divide power_int_of_nat)
  show ?thesis unfolding b p1 p2 using lo hi by simp
qed

lemma binade_unique:
  assumes "2 powi e \<le> \<bar>x\<bar>" and "\<bar>x\<bar> < 2 powi (e + 1)"
  shows "binade x = e"
proof -
  have "0 < (2::real) powi e" by simp
  with assms(1) have "0 < \<bar>x\<bar>" by linarith
  then have nz: "x \<noteq> 0" by simp
  note b = binade_bounds[OF nz]
  have "\<not> e < binade x"
  proof
    assume "e < binade x"
    then have "(2::real) powi (e + 1) \<le> 2 powi binade x" by (intro power_int_increasing) simp_all
    with b assms show False by linarith
  qed
  moreover have "\<not> binade x < e"
  proof
    assume "binade x < e"
    then have "(2::real) powi (binade x + 1) \<le> 2 powi e" by (intro power_int_increasing) simp_all
    with b assms show False by linarith
  qed
  ultimately show ?thesis by simp
qed

lemma fl_err: "\<bar>fl x - x\<bar> \<le> \<bar>x\<bar> / 2 ^ 53 + 1 / 2 ^ 100"
proof (cases "x = 0")
  case True
  then show ?thesis by (simp add: fl_def)
next
  case False
  define e where "e = max (binade x) (- 1022)"
  define q :: real where "q = 2 powi (e - 52)"
  have q0: "0 < q" unfolding q_def by simp
  have flx: "fl x = of_int (roundTiesEven (x / q)) * q"
    using False unfolding fl_def Let_def q_def e_def by simp
  have "fl x - x = (of_int (roundTiesEven (x / q)) - x / q) * q"
    unfolding flx using q0 by (simp add: left_diff_distrib)
  then have "\<bar>fl x - x\<bar> = \<bar>of_int (roundTiesEven (x / q)) - x / q\<bar> * q"
    using q0 by (simp add: abs_mult)
  also have "\<dots> \<le> 1 / 2 * q"
    using roundTiesEven_err[of "x / q"] q0 by (intro mult_right_mono) simp_all
  finally have err: "\<bar>fl x - x\<bar> \<le> q / 2" by simp
  show ?thesis
  proof (cases "binade x \<ge> - 1022")
    case True
    then have "e = binade x" unfolding e_def by simp
    then have "q = 2 powi binade x / 2 ^ 52"
      unfolding q_def by (simp add: power_int_diff)
    also have "\<dots> \<le> \<bar>x\<bar> / 2 ^ 52"
      using binade_bounds[OF False] by (intro divide_right_mono) simp_all
    finally have "q / 2 \<le> \<bar>x\<bar> / 2 ^ 53" by simp
    with err show ?thesis by simp
  next
    case False
    then have "e = - 1022" unfolding e_def by simp
    then have "q = 2 powi (- 1074)" unfolding q_def by simp
    also have "\<dots> \<le> 2 powi (- 99)" by (intro power_int_increasing) simp_all
    finally have "q / 2 \<le> 1 / 2 ^ 100" by simp
    moreover have "0 \<le> \<bar>x\<bar> / 2 ^ 53" by simp
    ultimately show ?thesis using err by linarith
  qed
qed

lemma fl_eval:
  assumes "2 powi e \<le> \<bar>x\<bar>" and "\<bar>x\<bar> < 2 powi (e + 1)" and "- 1022 \<le> e"
  shows "fl x = of_int (roundTiesEven (x / 2 powi (e - 52))) * 2 powi (e - 52)"
proof -
  have "0 < (2::real) powi e" by simp
  with assms(1) have "0 < \<bar>x\<bar>" by linarith
  then have nz: "x \<noteq> 0" by simp
  show ?thesis using binade_unique[OF assms(1,2)] assms(3) nz by (simp add: fl_def Let_def max_def)
qed


lemma roundTiesEven_nonneg: "0 \<le> y \<Longrightarrow> 0 \<le> roundTiesEven y"
  unfolding roundTiesEven_def Let_def by auto

lemma fl_nonneg: "0 \<le> x \<Longrightarrow> 0 \<le> fl x"
  unfolding fl_def Let_def by (simp add: roundTiesEven_nonneg)

lemma fl_consts:
  "fl 0.51 = 2296835809958953 / 4503599627370496"
  "fl (1 - 2296835809958953 / 4503599627370496) = 2206763817411543 / 4503599627370496"
  "fl 12.9 = 7262054399134925 / 562949953421312"
  "fl 8.5 = 17 / 2"
  "fl 0.12 = 1080863910568919 / 9007199254740992"
  "fl 0.0455 = 3278620528725721 / 72057594037927936"
  by (subst fl_eval[of "-1"], simp_all add: roundTiesEven_def Let_def,
      subst fl_eval[of "-2"], simp_all add: roundTiesEven_def Let_def,
      subst fl_eval[of "3"], simp_all add: roundTiesEven_def Let_def,
      subst fl_eval[of "3"], simp_all add: roundTiesEven_def Let_def,
      subst fl_eval[of "-4"], simp_all add: roundTiesEven_def Let_def,
      subst fl_eval[of "-5"], simp_all add: roundTiesEven_def Let_def)

subsection \<open>The margin of the classifier and its rounding error\<close>

text \<open>
  The rounding error of the margin, operation by operation: each lemma takes the bound on
  the operands of one operation to a bound on its rounded result.
\<close>

lemma marginG_exact_linear: "marginG_exact M C = M * (408905 / 1000000) - C - 1328675 / 100000"
  by (simp add: marginG_exact_def Let_def algebra_simps)

lemma fl_step:
  assumes "\<bar>x - y\<bar> \<le> d" and "\<bar>y\<bar> \<le> B"
  shows "\<bar>fl x - y\<bar> \<le> d + (B + d) / 2 ^ 53 + 1 / 2 ^ 100"
proof -
  have "\<bar>x\<bar> \<le> B + d" using assms by linarith
  then have "\<bar>x\<bar> / 2 ^ 53 \<le> (B + d) / 2 ^ 53" by (simp add: divide_right_mono)
  with fl_err[of x] assms(1) show ?thesis by linarith
qed

lemma step_P:
  fixes M :: real
  assumes "0 \<le> M"
  shows "\<bar>fl (M * (2206763817411543 / 4503599627370496)) - M * (49 / 100)\<bar>
           \<le> M / 2 ^ 53 + 1 / 2 ^ 100"
proof -
  have d: "\<bar>M * (2206763817411543 / 4503599627370496) - M * (49 / 100)\<bar> \<le> M / 2 ^ 56"
    using assms by simp
  have b: "\<bar>M * (49 / 100)\<bar> \<le> M / 2" using assms by simp
  have "M / 2 ^ 56 + (M / 2 + M / 2 ^ 56) / 2 ^ 53 + 1 / 2 ^ 100 \<le> M / 2 ^ 53 + 1 / 2 ^ 100"
    using assms by (simp add: add_divide_distrib)
  with fl_step[OF d b] show ?thesis by linarith
qed

lemma step_A:
  fixes M P :: real
  assumes "0 \<le> M" and "\<bar>P - M * (49 / 100)\<bar> \<le> M / 2 ^ 53 + 1 / 2 ^ 100"
  shows "\<bar>fl (P * (1080863910568919 / 9007199254740992)) - M * (588 / 10000)\<bar>
           \<le> M / 2 ^ 54 + 3 / 2 ^ 100"
proof -
  have d: "\<bar>P * (1080863910568919 / 9007199254740992) - M * (588 / 10000)\<bar>
             \<le> M / 2 ^ 55 + 1 / 2 ^ 100"
    using assms by (simp add: abs_le_iff add_divide_distrib)
  have b: "\<bar>M * (588 / 10000)\<bar> \<le> M / 16" using assms(1) by simp
  have "M / 2 ^ 55 + 1 / 2 ^ 100 + (M / 16 + (M / 2 ^ 55 + 1 / 2 ^ 100)) / 2 ^ 53 + 1 / 2 ^ 100
          \<le> M / 2 ^ 54 + 3 / 2 ^ 100"
    using assms(1) by (simp add: add_divide_distrib)
  with fl_step[OF d b] show ?thesis by linarith
qed

lemma step_g:
  fixes M P :: real
  assumes "0 \<le> M" and "\<bar>P - M * (49 / 100)\<bar> \<le> M / 2 ^ 53 + 1 / 2 ^ 100"
  shows "\<bar>fl (P + 17 / 2) - (M * (49 / 100) + 17 / 2)\<bar> \<le> (2 * M + 9) / 2 ^ 53 + 3 / 2 ^ 100"
proof -
  have d: "\<bar>P + 17 / 2 - (M * (49 / 100) + 17 / 2)\<bar> \<le> M / 2 ^ 53 + 1 / 2 ^ 100"
    using assms(2) by simp
  have b: "\<bar>M * (49 / 100) + 17 / 2\<bar> \<le> M / 2 + 9" using assms(1) by simp
  have "M / 2 ^ 53 + 1 / 2 ^ 100 + (M / 2 + 9 + (M / 2 ^ 53 + 1 / 2 ^ 100)) / 2 ^ 53 + 1 / 2 ^ 100
          \<le> (2 * M + 9) / 2 ^ 53 + 3 / 2 ^ 100"
    using assms(1) by (simp add: add_divide_distrib)
  with fl_step[OF d b] show ?thesis by linarith
qed

lemma step_O:
  fixes M g :: real
  assumes "0 \<le> M"
    and "\<bar>g - (M * (49 / 100) + 17 / 2)\<bar> \<le> (2 * M + 9) / 2 ^ 53 + 3 / 2 ^ 100"
  shows "\<bar>fl (g * (3278620528725721 / 72057594037927936)) - (M * (49 / 100) + 17 / 2) * (455 / 10000)\<bar>
           \<le> (M + 8) / 2 ^ 55 + 3 / 2 ^ 100"
proof -
  have d: "\<bar>g * (3278620528725721 / 72057594037927936) - (M * (49 / 100) + 17 / 2) * (455 / 10000)\<bar>
             \<le> (M + 8) / 2 ^ 56 + 1 / 2 ^ 100"
    using assms by (simp add: abs_le_iff add_divide_distrib)
  have b: "\<bar>(M * (49 / 100) + 17 / 2) * (455 / 10000)\<bar> \<le> M / 32 + 1 / 2" using assms(1) by simp
  have "(M + 8) / 2 ^ 56 + 1 / 2 ^ 100 + (M / 32 + 1 / 2 + ((M + 8) / 2 ^ 56 + 1 / 2 ^ 100)) / 2 ^ 53
          + 1 / 2 ^ 100 \<le> (M + 8) / 2 ^ 55 + 3 / 2 ^ 100"
    using assms(1) by (simp add: add_divide_distrib)
  with fl_step[OF d b] show ?thesis by linarith
qed

lemma step_t1:
  fixes M C P :: real
  assumes "0 \<le> M" and "0 \<le> C" and "\<bar>P - M * (49 / 100)\<bar> \<le> M / 2 ^ 53 + 1 / 2 ^ 100"
  shows "\<bar>fl (P - C) - (M * (49 / 100) - C)\<bar> \<le> (2 * M + 2 * C) / 2 ^ 53 + 3 / 2 ^ 100"
proof -
  have d: "\<bar>P - C - (M * (49 / 100) - C)\<bar> \<le> M / 2 ^ 53 + 1 / 2 ^ 100"
    using assms(3) by simp
  have b: "\<bar>M * (49 / 100) - C\<bar> \<le> M / 2 + C" using assms(1,2) by simp
  have "M / 2 ^ 53 + 1 / 2 ^ 100 + (M / 2 + C + (M / 2 ^ 53 + 1 / 2 ^ 100)) / 2 ^ 53 + 1 / 2 ^ 100
          \<le> (2 * M + 2 * C) / 2 ^ 53 + 3 / 2 ^ 100"
    using assms(1,2) by (simp add: add_divide_distrib)
  with fl_step[OF d b] show ?thesis by linarith
qed

lemma step_t2:
  fixes M C t1 :: real
  assumes "0 \<le> M" and "0 \<le> C"
    and "\<bar>t1 - (M * (49 / 100) - C)\<bar> \<le> (2 * M + 2 * C) / 2 ^ 53 + 3 / 2 ^ 100"
  shows "\<bar>fl (t1 - 7262054399134925 / 562949953421312) - (M * (49 / 100) - C - 129 / 10)\<bar>
           \<le> (3 * M + 4 * C + 18) / 2 ^ 53 + 5 / 2 ^ 100"
proof -
  have d: "\<bar>t1 - 7262054399134925 / 562949953421312 - (M * (49 / 100) - C - 129 / 10)\<bar>
             \<le> (2 * M + 2 * C + 4) / 2 ^ 53 + 3 / 2 ^ 100"
    using assms(3) by (simp add: abs_le_iff add_divide_distrib)
  have b: "\<bar>M * (49 / 100) - C - 129 / 10\<bar> \<le> M / 2 + C + 13" using assms(1,2) by simp
  have "(2 * M + 2 * C + 4) / 2 ^ 53 + 3 / 2 ^ 100
          + (M / 2 + C + 13 + ((2 * M + 2 * C + 4) / 2 ^ 53 + 3 / 2 ^ 100)) / 2 ^ 53 + 1 / 2 ^ 100
          \<le> (3 * M + 4 * C + 18) / 2 ^ 53 + 5 / 2 ^ 100"
    using assms(1,2) by (simp add: add_divide_distrib)
  with fl_step[OF d b] show ?thesis by linarith
qed

lemma step_t3:
  fixes M C A t2 :: real
  assumes "0 \<le> M" and "0 \<le> C"
    and "\<bar>A - M * (588 / 10000)\<bar> \<le> M / 2 ^ 54 + 3 / 2 ^ 100"
    and "\<bar>t2 - (M * (49 / 100) - C - 129 / 10)\<bar> \<le> (3 * M + 4 * C + 18) / 2 ^ 53 + 5 / 2 ^ 100"
  shows "\<bar>fl (t2 - A) - (M * (49 / 100) - C - 129 / 10 - M * (588 / 10000))\<bar>
           \<le> (5 * M + 6 * C + 32) / 2 ^ 53 + 10 / 2 ^ 100"
proof -
  have d: "\<bar>t2 - A - (M * (49 / 100) - C - 129 / 10 - M * (588 / 10000))\<bar>
             \<le> (4 * M + 4 * C + 18) / 2 ^ 53 + 8 / 2 ^ 100"
    using assms(3,4) assms(1) by (simp add: abs_le_iff add_divide_distrib)
  have b: "\<bar>M * (49 / 100) - C - 129 / 10 - M * (588 / 10000)\<bar> \<le> M / 2 + C + 13"
    using assms(1,2) by simp
  have "(4 * M + 4 * C + 18) / 2 ^ 53 + 8 / 2 ^ 100
          + (M / 2 + C + 13 + ((4 * M + 4 * C + 18) / 2 ^ 53 + 8 / 2 ^ 100)) / 2 ^ 53 + 1 / 2 ^ 100
          \<le> (5 * M + 6 * C + 32) / 2 ^ 53 + 10 / 2 ^ 100"
    using assms(1,2) by (simp add: add_divide_distrib)
  with fl_step[OF d b] show ?thesis by linarith
qed

lemma step_G:
  fixes M C O' t3 :: real
  assumes "0 \<le> M" and "0 \<le> C"
    and "\<bar>O' - (M * (49 / 100) + 17 / 2) * (455 / 10000)\<bar> \<le> (M + 8) / 2 ^ 55 + 3 / 2 ^ 100"
    and "\<bar>t3 - (M * (49 / 100) - C - 129 / 10 - M * (588 / 10000))\<bar>
           \<le> (5 * M + 6 * C + 32) / 2 ^ 53 + 10 / 2 ^ 100"
  shows "\<bar>fl (t3 - O') - (M * (408905 / 1000000) - C - 1328675 / 100000)\<bar> \<le> (M + C + 16) / 2 ^ 50"
proof -
  have d: "\<bar>t3 - O' - (M * (408905 / 1000000) - C - 1328675 / 100000)\<bar>
             \<le> (6 * M + 6 * C + 34) / 2 ^ 53 + 13 / 2 ^ 100"
    using assms(3,4) assms(1) by (simp add: abs_le_iff add_divide_distrib)
  have b: "\<bar>M * (408905 / 1000000) - C - 1328675 / 100000\<bar> \<le> M / 2 + C + 14"
    using assms(1,2) by simp
  have "(6 * M + 6 * C + 34) / 2 ^ 53 + 13 / 2 ^ 100
          + (M / 2 + C + 14 + ((6 * M + 6 * C + 34) / 2 ^ 53 + 13 / 2 ^ 100)) / 2 ^ 53 + 1 / 2 ^ 100
          \<le> (M + C + 16) / 2 ^ 50"
    using assms(1,2) by (simp add: add_divide_distrib)
  with fl_step[OF d b] show ?thesis by linarith
qed

lemma marginG_roundoff:
  assumes "0 \<le> M" and "0 \<le> C"
  shows "\<bar>marginG M C - marginG_exact M C\<bar> \<le> roundoff M C"
proof -
  define P where "P = fl (M * (2206763817411543 / 4503599627370496))"
  define A where "A = fl (P * (1080863910568919 / 9007199254740992))"
  define g where "g = fl (P + 17 / 2)"
  define O' where "O' = fl (g * (3278620528725721 / 72057594037927936))"
  define t1 where "t1 = fl (P - C)"
  define t2 where "t2 = fl (t1 - 7262054399134925 / 562949953421312)"
  define t3 where "t3 = fl (t2 - A)"
  have G: "marginG M C = fl (t3 - O')"
    unfolding marginG_def Let_def t3_def t2_def t1_def O'_def g_def A_def P_def
    by (simp only: fl_consts)
  have eP: "\<bar>P - M * (49 / 100)\<bar> \<le> M / 2 ^ 53 + 1 / 2 ^ 100"
    unfolding P_def by (rule step_P[OF assms(1)])
  have eA: "\<bar>A - M * (588 / 10000)\<bar> \<le> M / 2 ^ 54 + 3 / 2 ^ 100"
    unfolding A_def by (rule step_A[OF assms(1) eP])
  have eg: "\<bar>g - (M * (49 / 100) + 17 / 2)\<bar> \<le> (2 * M + 9) / 2 ^ 53 + 3 / 2 ^ 100"
    unfolding g_def by (rule step_g[OF assms(1) eP])
  have eO: "\<bar>O' - (M * (49 / 100) + 17 / 2) * (455 / 10000)\<bar> \<le> (M + 8) / 2 ^ 55 + 3 / 2 ^ 100"
    unfolding O'_def by (rule step_O[OF assms(1) eg])
  have e1: "\<bar>t1 - (M * (49 / 100) - C)\<bar> \<le> (2 * M + 2 * C) / 2 ^ 53 + 3 / 2 ^ 100"
    unfolding t1_def by (rule step_t1[OF assms eP])
  have e2: "\<bar>t2 - (M * (49 / 100) - C - 129 / 10)\<bar> \<le> (3 * M + 4 * C + 18) / 2 ^ 53 + 5 / 2 ^ 100"
    unfolding t2_def by (rule step_t2[OF assms e1])
  have e3: "\<bar>t3 - (M * (49 / 100) - C - 129 / 10 - M * (588 / 10000))\<bar>
           \<le> (5 * M + 6 * C + 32) / 2 ^ 53 + 10 / 2 ^ 100"
    unfolding t3_def by (rule step_t3[OF assms eA e2])
  have "\<bar>fl (t3 - O') - (M * (408905 / 1000000) - C - 1328675 / 100000)\<bar> \<le> (M + C + 16) / 2 ^ 50"
    by (rule step_G[OF assms eO e3])
  then show ?thesis unfolding G marginG_exact_linear roundoff_def .
qed

lemma fl_inputs:
  "fl 63.60095865787897 = 8951039178500939 / 140737488355328"
  "fl 63.60095865787898 = 2237759794625235 / 35184372088832"
  "fl 12.72 = 7160723407519089 / 562949953421312"
  by (subst fl_eval[of "5"], simp_all add: roundTiesEven_def Let_def,
      subst fl_eval[of "5"], simp_all add: roundTiesEven_def Let_def,
      subst fl_eval[of "3"], simp_all add: roundTiesEven_def Let_def)

lemma margin_steps_1:
  "fl (8951039178500939 / 140737488355328 * (2206763817411543 / 4503599627370496)) = 1096502299366365 / 35184372088832"
  "fl (1096502299366365 / 35184372088832 * (1080863910568919 / 9007199254740992)) = 8421137659133683 / 2251799813685248"
  "fl (1096502299366365 / 35184372088832 + 17 / 2) = 1395569462121437 / 35184372088832"
  "fl (1395569462121437 / 35184372088832 * (3278620528725721 / 72057594037927936)) = 8127796547395249 / 4503599627370496"
  "fl (1096502299366365 / 35184372088832 - 7160723407519089 / 562949953421312) = 324478543198211 / 17592186044416"
  "fl (324478543198211 / 17592186044416 - 7262054399134925 / 562949953421312) = 3121258983207827 / 562949953421312"
  "fl (3121258983207827 / 562949953421312 - 8421137659133683 / 2251799813685248) = 4063898273697625 / 2251799813685248"
  "fl (4063898273697625 / 2251799813685248 - 8127796547395249 / 4503599627370496) = 1 / 4503599627370496"
  by (subst fl_eval[of "4"], simp_all add: roundTiesEven_def Let_def,
      subst fl_eval[of "1"], simp_all add: roundTiesEven_def Let_def,
      subst fl_eval[of "5"], simp_all add: roundTiesEven_def Let_def,
      subst fl_eval[of "0"], simp_all add: roundTiesEven_def Let_def,
      subst fl_eval[of "4"], simp_all add: roundTiesEven_def Let_def,
      subst fl_eval[of "2"], simp_all add: roundTiesEven_def Let_def,
      subst fl_eval[of "0"], simp_all add: roundTiesEven_def Let_def,
      subst fl_eval[of "-52"], simp_all add: roundTiesEven_def Let_def)

lemma margin_steps_2:
  "fl (2237759794625235 / 35184372088832 * (2206763817411543 / 4503599627370496)) = 8772018394930921 / 281474976710656"
  "fl (8772018394930921 / 281474976710656 * (1080863910568919 / 9007199254740992)) = 2105284414783421 / 562949953421312"
  "fl (8772018394930921 / 281474976710656 + 17 / 2) = 1395569462121437 / 35184372088832"
  "fl (1395569462121437 / 35184372088832 * (3278620528725721 / 72057594037927936)) = 8127796547395249 / 4503599627370496"
  "fl (8772018394930921 / 281474976710656 - 7160723407519089 / 562949953421312) = 324478543198211 / 17592186044416"
  "fl (324478543198211 / 17592186044416 - 7262054399134925 / 562949953421312) = 3121258983207827 / 562949953421312"
  "fl (3121258983207827 / 562949953421312 - 2105284414783421 / 562949953421312) = 507987284212203 / 281474976710656"
  "fl (507987284212203 / 281474976710656 - 8127796547395249 / 4503599627370496) = - (1 / 4503599627370496)"
  by (subst fl_eval[of "4"], simp_all add: roundTiesEven_def Let_def,
      subst fl_eval[of "1"], simp_all add: roundTiesEven_def Let_def,
      subst fl_eval[of "5"], simp_all add: roundTiesEven_def Let_def,
      subst fl_eval[of "0"], simp_all add: roundTiesEven_def Let_def,
      subst fl_eval[of "4"], simp_all add: roundTiesEven_def Let_def,
      subst fl_eval[of "2"], simp_all add: roundTiesEven_def Let_def,
      subst fl_eval[of "0"], simp_all add: roundTiesEven_def Let_def,
      subst fl_eval[of "-52"], simp_all add: roundTiesEven_def Let_def)


lemma marginG_at_1:
  "marginG (8951039178500939 / 140737488355328) (7160723407519089 / 562949953421312)
   = 1 / 4503599627370496"
  unfolding marginG_def Let_def by (simp only: fl_consts margin_steps_1)

lemma marginG_at_2:
  "marginG (2237759794625235 / 35184372088832) (7160723407519089 / 562949953421312)
   = - (1 / 4503599627370496)"
  unfolding marginG_def Let_def by (simp only: fl_consts margin_steps_2)

lemma marginG_nonneg:
  assumes "0 \<le> M" and "0 \<le> C" and "roundoff M C \<le> marginG_exact M C"
  shows "0 \<le> marginG M C"
  using marginG_roundoff[OF assms(1,2)] assms(3) by linarith

lemma marginG_neg:
  assumes "0 \<le> M" and "0 \<le> C" and "marginG_exact M C < - roundoff M C"
  shows "marginG M C < 0"
  using marginG_roundoff[OF assms(1,2)] assms(3) by linarith

subsection \<open>A product evaluated\<close>

lemma lowMargin_at_cost: "computePricing 100 100 ''low-margin'' = Some \<lparr>price_new = 100, as_low_as = 0\<rparr>"
  by (simp add: computePricing_def costPlusPrice_def LM_def round2_def Let_def)

lemma type_at_cost: "determineTypeArigato 100 100 [''Sale''] = ''low-margin''"
proof -
  have "marginG 100 100 < 0"
    by (rule marginG_neg) (simp_all add: marginG_exact_linear roundoff_def)
  then show ?thesis
    by (simp add: determineTypeArigato_def hasUsedGateway_def tag_eval)
qed

lemma tagdiff_sale: "computeTagDiff [''Sale''] ''low-margin'' =
   \<lparr>desiredTagsArr = [''Sale'', ''low-margin''], tags_to_add = [''low-margin''],
    tags_to_remove = [], doTags = True\<rparr>"
  by (simp add: computeTagDiff_def TYPE_TAGS_def tag_eval Let_def)

lemma decide_example:
  "decide \<lparr>productId = ''1001'', title = ''Lamp'', handle = ''lamp'', status = ''Active'',
           tagsArr = [''Sale''], asLowAsCurrent = ''49'',
           variants = [\<lparr>variantId = ''11'', pos = 1, price = Some 50, compareAt = Some 100, cost = Some 100\<rparr>,
                       \<lparr>variantId = ''12'', pos = 2, price = Some 60, compareAt = Some 100, cost = Some 100\<rparr>]\<rparr>
   = \<lparr>missingMC = False, doDraft = False, desiredType = ''low-margin'',
      desiredPriceNew = Some 100, desiredAsLowAs = None,
      tagDiff = \<lparr>desiredTagsArr = [''Sale'', ''low-margin''], tags_to_add = [''low-margin''],
                 tags_to_remove = [], doTags = True\<rparr>,
      variantsToUpdate = [''11'', ''12''], doPrice = True, doMetafield = False,
      needsChange = True\<rparr>"
  by (simp add: decide_def Let_def pickBase_def hasCnfdnt_def tag_eval type_at_cost
      lowMargin_at_cost tagdiff_sale TYPE_TAGS_def approxEqualMoney_def nullAsZero_def)

subsection \<open>The decision of the diff engine, case by case\<close>

lemma pickBase_map:
  assumes "\<And>v. pos (f v) = pos v"
  shows "pickBase (map f vs) = map_option f (pickBase vs)"
proof -
  let ?step = "\<lambda>best v. case best of None \<Rightarrow> Some v
                      | Some b \<Rightarrow> if pos v < pos b then Some v else Some b"
  have "foldl ?step (map_option f b0) (map f vs) = map_option f (foldl ?step b0 vs)" for b0
  proof (induction vs arbitrary: b0)
    case Nil
    show ?case by simp
  next
    case (Cons v vs)
    have "?step (map_option f b0) (f v) = map_option f (?step b0 v)"
      by (cases b0) (simp_all add: assms)
    then show ?case using Cons.IH[of "?step b0 v"] by simp
  qed
  from this[of None] show ?thesis by (simp add: pickBase_def)
qed

lemma approxEqualMoney_refl: "approxEqualMoney x x"
  by (simp add: approxEqualMoney_def)

lemma determineTypeArigato_type:
  "M > 0 \<Longrightarrow> C > 0 \<Longrightarrow> determineTypeArigato M C tags \<in> set TYPE_TAGS"
  by (simp add: determineTypeArigato_def TYPE_TAGS_def)

lemma marker_not_type:
  "''preowned / defect'' \<notin> set TYPE_TAGS" "''preloved'' \<notin> set TYPE_TAGS" "''cnfdnt'' \<notin> set TYPE_TAGS"
  by (simp_all add: TYPE_TAGS_def)

lemma marker_in_desired:
  assumes "d \<in> set TYPE_TAGS" and "m \<notin> set TYPE_TAGS"
  shows "m \<in> set (map normTag (filter (\<lambda>t. normTag t \<notin> set TYPE_TAGS) cur @ [d]))
         \<longleftrightarrow> m \<in> set (map normTag cur)"
  using assms by auto

lemma desired_keeps_markers:
  assumes "d \<in> set TYPE_TAGS"
  shows "hasUsedGateway (filter (\<lambda>t. normTag t \<notin> set TYPE_TAGS) cur @ [d]) = hasUsedGateway cur"
    and "hasCnfdnt (filter (\<lambda>t. normTag t \<notin> set TYPE_TAGS) cur @ [d]) = hasCnfdnt cur"
  unfolding hasUsedGateway_def hasCnfdnt_def Let_def
  by (simp_all only: marker_in_desired[OF assms marker_not_type(1)]
      marker_in_desired[OF assms marker_not_type(2)] marker_in_desired[OF assms marker_not_type(3)])

lemma desired_tags_stable:
  assumes "d \<in> set TYPE_TAGS"
  shows "\<not> doTags (computeTagDiff (filter (\<lambda>t. normTag t \<notin> set TYPE_TAGS) cur @ [d]) d)"
  using assms by (auto simp: computeTagDiff_type[OF assms])

lemma decide_cnfdnt:
  assumes "hasCnfdnt (tagsArr p)"
  shows "decide p = \<lparr>missingMC = True, doDraft = False, desiredType = ''skip'',
               desiredPriceNew = None, desiredAsLowAs = None, tagDiff = noTagDiff (tagsArr p),
               variantsToUpdate = [], doPrice = False, doMetafield = False,
               needsChange = False\<rparr>"
  using assms by (simp add: decide_def Let_def)

lemma decide_missing:
  assumes "\<not> hasCnfdnt (tagsArr p)"
    and "g = (case pickBase (variants p) of None \<Rightarrow> 0
              | Some b \<Rightarrow> (case compareAt b of None \<Rightarrow> 0 | Some x \<Rightarrow> x))"
    and "M = (if g > 0 then g else 0)"
    and "C = (case pickBase (variants p) of None \<Rightarrow> 0
              | Some b \<Rightarrow> (case cost b of None \<Rightarrow> 0 | Some x \<Rightarrow> x))"
    and "\<not> (M > 0 \<and> C > 0)"
  shows "decide p = \<lparr>missingMC = True, doDraft = (toLowerCase (status p) \<noteq> ''draft''),
               desiredType = ''skip'',
               desiredPriceNew = None, desiredAsLowAs = None, tagDiff = noTagDiff (tagsArr p),
               variantsToUpdate = [], doPrice = False, doMetafield = False,
               needsChange = (toLowerCase (status p) \<noteq> ''draft'')\<rparr>"
proof -
  have m: "\<not> (0 < (if 0 < g then g else 0) \<and> 0 < C)" using assms(3,5) by simp
  show ?thesis
    unfolding decide_def Let_def assms(2)[symmetric] assms(4)[symmetric]
    using assms(1) m by (simp add: noTagDiff_def)
qed

lemma decide_priced:
  assumes "\<not> hasCnfdnt (tagsArr p)"
    and "g = (case pickBase (variants p) of None \<Rightarrow> 0
              | Some b \<Rightarrow> (case compareAt b of None \<Rightarrow> 0 | Some x \<Rightarrow> x))"
    and "M = (if g > 0 then g else 0)"
    and "C = (case pickBase (variants p) of None \<Rightarrow> 0
              | Some b \<Rightarrow> (case cost b of None \<Rightarrow> 0 | Some x \<Rightarrow> x))"
    and "M > 0 \<and> C > 0"
    and "dtype = determineTypeArigato M C (tagsArr p)"
    and "computePricing M C dtype = Some pr"
  shows "decide p = \<lparr>missingMC = False, doDraft = False, desiredType = dtype,
       desiredPriceNew = Some (price_new pr),
       desiredAsLowAs = (if dtype = ''standard'' \<and> as_low_as pr > 0 then Some (as_low_as pr) else None),
       tagDiff = computeTagDiff (tagsArr p) dtype,
       variantsToUpdate = map variantId
          (filter (\<lambda>v. variantId v \<noteq> [] \<and> \<not> approxEqualMoney (price v) (Some (price_new pr)))
             (variants p)),
       doPrice = (filter (\<lambda>v. variantId v \<noteq> [] \<and> \<not> approxEqualMoney (price v) (Some (price_new pr)))
             (variants p) \<noteq> []),
       doMetafield = (dtype = ''standard'' \<and> as_low_as pr > 0 \<and>
          \<not> (toNumberOrNull (Some (asLowAsCurrent p)) \<noteq> None \<and>
             approxEqualMoney (toNumberOrNull (Some (asLowAsCurrent p))) (Some (as_low_as pr)))),
       needsChange = (doTags (computeTagDiff (tagsArr p) dtype) \<or>
          filter (\<lambda>v. variantId v \<noteq> [] \<and> \<not> approxEqualMoney (price v) (Some (price_new pr)))
             (variants p) \<noteq> [] \<or>
          (dtype = ''standard'' \<and> as_low_as pr > 0 \<and>
          \<not> (toNumberOrNull (Some (asLowAsCurrent p)) \<noteq> None \<and>
             approxEqualMoney (toNumberOrNull (Some (asLowAsCurrent p))) (Some (as_low_as pr)))))\<rparr>"
proof -
  have m: "0 < (if 0 < g then g else 0) \<and> 0 < C" using assms(3,5) by simp
  have t: "determineTypeArigato (if 0 < g then g else 0) C (tagsArr p) = dtype"
    using assms(3,6) by simp
  have tt: "dtype \<in> set TYPE_TAGS"
    unfolding assms(6) using assms(5) by (simp add: determineTypeArigato_type)
  have pc: "computePricing (if 0 < g then g else 0) C dtype = Some pr"
    using assms(3,7) by simp
  show ?thesis
    unfolding decide_def Let_def assms(2)[symmetric] assms(4)[symmetric]
    using assms(1) m tt by (auto simp: t pc)
qed

lemma determineTypeArigato_gateway:
  "hasUsedGateway tags' = hasUsedGateway tags \<Longrightarrow>
   determineTypeArigato M C tags' = determineTypeArigato M C tags"
  by (simp add: determineTypeArigato_def)

lemma as_low_as_round2:
  assumes "computePricing M C type = Some pr"
  shows "as_low_as pr = round2 (if type = ''standard'' then (1 - S_d_max STD) * hiddenPrice M C else 0)"
proof -
  from assms have "M > 0" "C > 0" by (auto simp: computePricing_def split: if_splits)
  from computePricing_Some[OF this, of type] assms show ?thesis by auto
qed

lemma metafield_settles:
  assumes "computePricing M C type = Some pr"
  shows "toNumberOrNull (Some (jsString (Some (as_low_as pr)))) = Some (as_low_as pr)"
  unfolding as_low_as_round2[OF assms] jsString_def option.case
  by (rule toNumberOrNull_round2)

lemma lower_Draft: "toLowerCase ''Draft'' = ''draft''"
  by (simp add: toLowerCase_def lowerChar_def lowerTable_def)

subsection \<open>Sample selectors\<close>

lemma pushIds_length: "length acc \<le> n \<Longrightarrow> length (pushIds n xs acc) \<le> n"
  by (induction xs arbitrary: acc) auto

lemma pushIds_subset: "set (pushIds n xs acc) \<subseteq> set acc \<union> set xs"
proof (induction xs arbitrary: acc)
  case Nil
  show ?case by simp
next
  case (Cons pid rest)
  show ?case using Cons.IH[of "acc @ [pid]"] Cons.IH[of acc] by auto
qed

lemma pushGroups_length: "length acc \<le> n \<Longrightarrow> length (pushGroups n gs acc) \<le> n"
  by (induction gs arbitrary: acc) (auto simp: Let_def pushIds_length)

lemma pushGroups_subset: "set (pushGroups n gs acc) \<subseteq> set acc \<union> set (concat gs)"
proof (induction gs arbitrary: acc)
  case Nil
  show ?case by simp
next
  case (Cons grp rest)
  show ?case using pushIds_subset[of n grp acc] Cons.IH[of "pushIds n grp acc"]
    by (auto simp: Let_def)
qed

lemma pickByPriority_length: "length (pickByPriority n standard lowMargin used) \<le> n"
proof -
  have "length (pushGroups n [standard, lowMargin, used] []) \<le> n"
    by (rule pushGroups_length) simp
  then show ?thesis unfolding pickByPriority_def Let_def
    by (simp add: pushIds_length)
qed

lemma pickByPriority_subset:
  "set (pickByPriority n standard lowMargin used) \<subseteq> set standard \<union> set lowMargin \<union> set used"
proof -
  have g: "set (pushGroups n [standard, lowMargin, used] [])
      \<subseteq> set standard \<union> set lowMargin \<union> set used"
    using pushGroups_subset[of n "[standard, lowMargin, used]" "[]"] by auto
  have "set (pushIds n (standard @ lowMargin @ used) (pushGroups n [standard, lowMargin, used] []))
      \<subseteq> set standard \<union> set lowMargin \<union> set used"
    using pushIds_subset[of n "standard @ lowMargin @ used" "pushGroups n [standard, lowMargin, used] []"] g
    by auto
  with g show ?thesis unfolding pickByPriority_def Let_def by simp
qed

lemma addSome_inv:
  assumes "distinct (map meta_productId acc)" and "set acc \<subseteq> S" and "set arr \<subseteq> S"
  shows "distinct (map meta_productId (addSome count arr n acc))
       \<and> set (addSome count arr n acc) \<subseteq> S"
  using assms
proof (induction arr arbitrary: acc)
  case Nil
  then show ?case by simp
next
  case (Cons x arr)
  show ?case
  proof (cases "\<exists>p \<in> set acc. meta_productId p = meta_productId x")
    case True
    then show ?thesis using Cons.IH[of acc] Cons.prems by simp
  next
    case False
    then have d: "distinct (map meta_productId (acc @ [x]))"
      using Cons.prems(1) by (auto simp: image_iff)
    have s: "set (acc @ [x]) \<subseteq> S" using Cons.prems by simp
    have a: "set arr \<subseteq> S" using Cons.prems by simp
    from Cons.IH[OF d s a] d s False Cons.prems show ?thesis
      by (simp add: Let_def)
  qed
qed

lemma fillRemainder_inv:
  assumes "distinct (map meta_productId acc)" and "set acc \<subseteq> S" and "set xs \<subseteq> S"
  shows "distinct (map meta_productId (fillRemainder count xs acc))
       \<and> set (fillRemainder count xs acc) \<subseteq> S"
  using assms
proof (induction xs arbitrary: acc)
  case Nil
  then show ?case by simp
next
  case (Cons x xs)
  show ?case
  proof (cases "\<exists>p \<in> set acc. meta_productId p = meta_productId x")
    case True
    then show ?thesis using Cons.IH[of acc] Cons.prems by simp
  next
    case False
    then have d: "distinct (map meta_productId (acc @ [x]))"
      using Cons.prems(1) by (auto simp: image_iff)
    have s: "set (acc @ [x]) \<subseteq> S" using Cons.prems by simp
    have a: "set xs \<subseteq> S" using Cons.prems by simp
    from Cons.IH[OF d s a] False Cons.prems show ?thesis by simp
  qed
qed

lemma fillRemainder_mono: "set acc \<subseteq> set (fillRemainder count xs acc)"
proof (induction xs arbitrary: acc)
  case Nil
  show ?case by simp
next
  case (Cons x xs)
  show ?case using Cons.IH[of acc] Cons.IH[of "acc @ [x]"] by auto
qed

lemma fillRemainder_post:
  "length (fillRemainder count xs acc) \<ge> count
   \<or> meta_productId ` set xs \<subseteq> meta_productId ` set (fillRemainder count xs acc)"
proof (induction xs arbitrary: acc)
  case Nil
  show ?case by simp
next
  case (Cons x xs)
  show ?case
  proof (cases "length acc \<ge> count")
    case True
    then show ?thesis by simp
  next
    case nfull: False
    show ?thesis
    proof (cases "\<exists>p \<in> set acc. meta_productId p = meta_productId x")
      case True
      then obtain p where p: "p \<in> set acc" "meta_productId p = meta_productId x" by blast
      then have "p \<in> set (fillRemainder count xs acc)"
        using fillRemainder_mono[of acc count xs] by blast
      with p(2) have "meta_productId x \<in> meta_productId ` set (fillRemainder count xs acc)"
        by (metis imageI)
      with Cons.IH[of acc] True nfull show ?thesis by auto
    next
      case False
      have "x \<in> set (fillRemainder count xs (acc @ [x]))"
        using fillRemainder_mono[of "acc @ [x]" count xs] by auto
      then have "meta_productId x \<in> meta_productId ` set (fillRemainder count xs (acc @ [x]))"
        by blast
      with Cons.IH[of "acc @ [x]"] False nfull show ?thesis by auto
    qed
  qed
qed

lemma distinct_ids_length:
  assumes "distinct (map meta_productId F)" and "distinct (map meta_productId L)"
    and "set F \<subseteq> set L"
  shows "length F \<le> length L"
proof -
  have "length F = card (set F)" using assms(1) by (simp add: distinct_card distinct_map)
  also have "\<dots> \<le> card (set L)" using assms(3) by (simp add: card_mono)
  also have "\<dots> = length L" using assms(2) by (simp add: distinct_card distinct_map)
  finally show ?thesis .
qed

lemma covered_ids_length:
  assumes "distinct (map meta_productId F)" and "distinct (map meta_productId L)"
    and "meta_productId ` set L \<subseteq> meta_productId ` set F"
  shows "length L \<le> length F"
proof -
  have "length L = card (set (map meta_productId L))"
    using assms(2) by (simp add: distinct_card del: set_map)
  also have "\<dots> \<le> card (set (map meta_productId F))"
    using assms(3) by (simp add: card_mono)
  also have "\<dots> = length F"
    using assms(1) by (simp add: distinct_card del: set_map)
  finally show ?thesis .
qed

lemma pickMixedTestProducts_props:
  "length (pickMixedTestProducts list count) \<le> count
   \<and> set (pickMixedTestProducts list count) \<subseteq> set list
   \<and> (distinct (map meta_productId list) \<longrightarrow>
        length (pickMixedTestProducts list count) = min count (length list))"
proof -
  define draft where "draft = filter (\<lambda>x. meta_doDraft x) list"
  define used where "used = filter (\<lambda>x. meta_type x = ''used'' \<and> \<not> meta_doDraft x) list"
  define std where "std = filter (\<lambda>x. meta_type x = ''standard'' \<and> \<not> meta_doDraft x) list"
  define lm where "lm = filter (\<lambda>x. meta_type x = ''low-margin'' \<and> \<not> meta_doDraft x) list"
  define p1 where "p1 = addSome count draft (min 3 count) []"
  define p2 where "p2 = addSome count used (min 5 count) p1"
  define p3 where "p3 = addSome count std (min 8 count) p2"
  define p4 where "p4 = addSome count lm (min 8 count) p3"
  define F where "F = fillRemainder count list p4"
  have res: "pickMixedTestProducts list count = take count F"
    unfolding pickMixedTestProducts_def Let_def F_def p4_def p3_def p2_def p1_def
      draft_def used_def std_def lm_def ..
  have sub: "set draft \<subseteq> set list" "set used \<subseteq> set list" "set std \<subseteq> set list" "set lm \<subseteq> set list"
    unfolding draft_def used_def std_def lm_def by auto
  have i1: "distinct (map meta_productId p1) \<and> set p1 \<subseteq> set list"
    unfolding p1_def by (rule addSome_inv) (simp_all add: sub)
  have i2: "distinct (map meta_productId p2) \<and> set p2 \<subseteq> set list"
    unfolding p2_def using i1 sub by (intro addSome_inv) simp_all
  have i3: "distinct (map meta_productId p3) \<and> set p3 \<subseteq> set list"
    unfolding p3_def using i2 sub by (intro addSome_inv) simp_all
  have i4: "distinct (map meta_productId p4) \<and> set p4 \<subseteq> set list"
    unfolding p4_def using i3 sub by (intro addSome_inv) simp_all
  have iF: "distinct (map meta_productId F) \<and> set F \<subseteq> set list"
    unfolding F_def using i4 by (intro fillRemainder_inv) simp_all
  have len: "length (take count F) \<le> count" by simp
  have subs: "set (take count F) \<subseteq> set list" using iF set_take_subset[of count F] by blast
  have size: "length (take count F) = min count (length list)" if dl: "distinct (map meta_productId list)"
  proof -
    have le: "length F \<le> length list"
      using distinct_ids_length[of F list] iF dl by simp
    from fillRemainder_post[of count list p4]
    have "length F \<ge> count \<or> meta_productId ` set list \<subseteq> meta_productId ` set F"
      unfolding F_def .
    then show ?thesis
    proof
      assume "length F \<ge> count"
      with le show ?thesis by simp
    next
      assume "meta_productId ` set list \<subseteq> meta_productId ` set F"
      then have "length list \<le> length F" using covered_ids_length[of F list] iF dl by simp
      with le show ?thesis by simp
    qed
  qed
  show ?thesis unfolding res using len subs size by blast
qed

section \<open>Pricing: the reference price as a ceiling\<close>




section \<open>Tag reconciler\<close>

lemma computeTagDiff_fields:
  "(d \<in> set TYPE_TAGS \<longrightarrow>
      desiredTagsArr (computeTagDiff cur d) = filter (\<lambda>t. normTag t \<notin> set TYPE_TAGS) cur @ [d]
    \<and> length (filter (\<lambda>t. normTag t \<in> set TYPE_TAGS) (desiredTagsArr (computeTagDiff cur d))) = 1
    \<and> filter (\<lambda>t. normTag t \<notin> set TYPE_TAGS) (desiredTagsArr (computeTagDiff cur d))
        = filter (\<lambda>t. normTag t \<notin> set TYPE_TAGS) cur
    \<and> tags_to_add (computeTagDiff cur d) = (if d \<in> normTag ` set cur then [] else [d])
    \<and> set (tags_to_remove (computeTagDiff cur d))
        = {t \<in> set TYPE_TAGS. t \<noteq> d \<and> t \<in> normTag ` set cur}
    \<and> distinct (tags_to_remove (computeTagDiff cur d))
    \<and> (doTags (computeTagDiff cur d) \<longleftrightarrow>
         tags_to_add (computeTagDiff cur d) \<noteq> [] \<or> tags_to_remove (computeTagDiff cur d) \<noteq> []))
   \<and> desiredTagsArr (computeTagDiff cur ''skip'') = cur
   \<and> tags_to_add (computeTagDiff cur ''skip'') = []
   \<and> tags_to_remove (computeTagDiff cur ''skip'') = []
   \<and> \<not> doTags (computeTagDiff cur ''skip'')"
proof -
  have skip: "computeTagDiff cur ''skip'' =
      \<lparr>desiredTagsArr = cur, tags_to_add = [], tags_to_remove = [], doTags = False\<rparr>"
    by (simp add: computeTagDiff_def TYPE_TAGS_def)
  have dist: "distinct TYPE_TAGS" by (simp add: TYPE_TAGS_def)
  show ?thesis
  proof (cases "d \<in> set TYPE_TAGS")
    case True
    note eq = computeTagDiff_type[OF True, of cur]
    have "filter (\<lambda>t. normTag t \<in> set TYPE_TAGS) (filter (\<lambda>t. normTag t \<notin> set TYPE_TAGS) cur) = []"
      by (simp add: filter_empty_conv)
    with True eq dist skip show ?thesis
      by (auto simp: filter_empty_conv)
  next
    case False
    with skip show ?thesis by simp
  qed
qed

text \<open>
  Claim C3: for every current tag list and every desired regime among used, standard and
  low-margin, the desired tags contain exactly one type tag (compared after \<open>normTag\<close>), the
  other tags keep their order and casing, \<open>tags_to_add\<close> is the desired regime when it is not
  yet present, \<open>tags_to_remove\<close> is every other type tag that is present, and a change is
  signalled iff one of the two is non-empty; for the regime skip the current tags pass
  through and no change is signalled. The reconciler of the script \<open>matrixify-run.mjs\<close>
  returns the same for the three regimes, and its guarded call passes the tags through for
  skip.
\<close>

theorem computeTagDiff_reconciles:
  "((d \<in> set TYPE_TAGS \<longrightarrow>
      desiredTagsArr (computeTagDiff cur d) = filter (\<lambda>t. normTag t \<notin> set TYPE_TAGS) cur @ [d]
    \<and> length (filter (\<lambda>t. normTag t \<in> set TYPE_TAGS) (desiredTagsArr (computeTagDiff cur d))) = 1
    \<and> filter (\<lambda>t. normTag t \<notin> set TYPE_TAGS) (desiredTagsArr (computeTagDiff cur d))
        = filter (\<lambda>t. normTag t \<notin> set TYPE_TAGS) cur
    \<and> tags_to_add (computeTagDiff cur d) = (if d \<in> normTag ` set cur then [] else [d])
    \<and> set (tags_to_remove (computeTagDiff cur d))
        = {t \<in> set TYPE_TAGS. t \<noteq> d \<and> t \<in> normTag ` set cur}
    \<and> distinct (tags_to_remove (computeTagDiff cur d))
    \<and> (doTags (computeTagDiff cur d) \<longleftrightarrow>
         tags_to_add (computeTagDiff cur d) \<noteq> [] \<or> tags_to_remove (computeTagDiff cur d) \<noteq> []))
   \<and> desiredTagsArr (computeTagDiff cur ''skip'') = cur
   \<and> tags_to_add (computeTagDiff cur ''skip'') = []
   \<and> tags_to_remove (computeTagDiff cur ''skip'') = []
   \<and> \<not> doTags (computeTagDiff cur ''skip''))
   \<and> (d \<in> set TYPE_TAGS \<longrightarrow>
        computeTagOps cur d = computeTagDiff cur d \<and> tagOps False d cur = computeTagDiff cur d)
   \<and> (desiredTagsArr (tagOps missing ''skip'' cur) = cur
      \<and> tags_to_add (tagOps missing ''skip'' cur) = []
      \<and> tags_to_remove (tagOps missing ''skip'' cur) = []
      \<and> \<not> doTags (tagOps missing ''skip'' cur))"
proof -
  have a: "d \<in> set TYPE_TAGS \<longrightarrow>
        computeTagOps cur d = computeTagDiff cur d \<and> tagOps False d cur = computeTagDiff cur d"
    using computeTagOps_type[of d cur] tagOps_type[of d cur] by blast
  have b: "desiredTagsArr (tagOps missing ''skip'' cur) = cur
      \<and> tags_to_add (tagOps missing ''skip'' cur) = []
      \<and> tags_to_remove (tagOps missing ''skip'' cur) = []
      \<and> \<not> doTags (tagOps missing ''skip'' cur)"
    by (simp add: tagOps_skip noTagDiff_def)
  show ?thesis by (rule conjI[OF computeTagDiff_fields conjI[OF a b]])
qed

theorem computeTagDiff_reconciles_witness:
  "''low-margin'' \<in> set TYPE_TAGS
   \<and> desiredTagsArr (computeTagDiff [''Sale'', ''standard''] ''low-margin'') = [''Sale'', ''low-margin'']
   \<and> tags_to_add (computeTagDiff [''Sale'', ''standard''] ''low-margin'') = [''low-margin'']
   \<and> doTags (computeTagDiff [''Sale'', ''standard''] ''low-margin'')"
  using computeTagDiff_reconciles [of "''low-margin''" "[''Sale'', ''standard'']" False]
  by (simp add: TYPE_TAGS_def tag_eval)

text \<open>
  Claim C10: if the current tags hold the desired type tag in any casing and no other type
  tag, the reconciler signals no change: \<open>tags_to_add\<close> and \<open>tags_to_remove\<close> are empty and
  \<open>doTags\<close> is false, although the desired tag list carries the type tag in lower case. The
  reconciler of the script \<open>matrixify-run.mjs\<close> returns the same.
\<close>

theorem computeTagDiff_casing_no_change:
  assumes "d \<in> set TYPE_TAGS"
    and "\<exists>t \<in> set cur. normTag t = d"
    and "\<forall>t \<in> set cur. normTag t \<in> set TYPE_TAGS \<longrightarrow> normTag t = d"
  shows "tags_to_add (computeTagDiff cur d) = []
       \<and> tags_to_remove (computeTagDiff cur d) = []
       \<and> \<not> doTags (computeTagDiff cur d)
       \<and> desiredTagsArr (computeTagDiff cur d) = filter (\<lambda>t. normTag t \<notin> set TYPE_TAGS) cur @ [d]
       \<and> computeTagOps cur d = computeTagDiff cur d"
proof -
  from assms(2) have "d \<in> normTag ` set cur" by auto
  moreover from assms(3) have "\<And>t. t \<in> set TYPE_TAGS \<Longrightarrow> t \<noteq> d \<Longrightarrow> t \<notin> normTag ` set cur" by auto
  ultimately show ?thesis
    by (auto simp: computeTagOps_type[OF assms(1)] computeTagDiff_type[OF assms(1)] filter_empty_conv)
qed

theorem computeTagDiff_casing_no_change_witness:
  "tags_to_add (computeTagDiff [''Sale'', ''Standard''] ''standard'') = []
   \<and> tags_to_remove (computeTagDiff [''Sale'', ''Standard''] ''standard'') = []
   \<and> \<not> doTags (computeTagDiff [''Sale'', ''Standard''] ''standard'')
   \<and> desiredTagsArr (computeTagDiff [''Sale'', ''Standard''] ''standard'') = [''Sale'', ''standard'']"
  using computeTagDiff_casing_no_change [of "''standard''" "[''Sale'', ''Standard'']"]
  by (simp add: TYPE_TAGS_def tag_eval)

section \<open>Classifier\<close>

text \<open>
  Claim C9: the classifier returns skip iff \<open>M\<close> or \<open>C\<close> is not strictly positive; when both
  are, it returns used whenever the tags hold a gateway marker (\<open>preloved\<close> or
  \<open>preowned / defect\<close> after \<open>normTag\<close>), whatever the margin; otherwise it returns standard
  exactly when the projected worst-case margin \<open>G\<close>, as the program computes it, is at least
  \<open>0\<close> and low-margin when it is negative.
\<close>

theorem determineTypeArigato_cases:
  "(determineTypeArigato M C tags = ''skip'' \<longleftrightarrow> \<not> (M > 0) \<or> \<not> (C > 0))
   \<and> (M > 0 \<and> C > 0 \<and> hasUsedGateway tags \<longrightarrow> determineTypeArigato M C tags = ''used'')
   \<and> (M > 0 \<and> C > 0 \<and> \<not> hasUsedGateway tags \<longrightarrow>
        (determineTypeArigato M C tags = ''standard'' \<longleftrightarrow> marginG M C \<ge> 0)
      \<and> (determineTypeArigato M C tags = ''low-margin'' \<longleftrightarrow> marginG M C < 0))
   \<and> (hasUsedGateway tags \<longleftrightarrow>
        (\<exists>t \<in> set tags. normTag t = ''preloved'' \<or> normTag t = ''preowned / defect''))
   \<and> marginG M C =
        fl (fl (fl (fl (fl (M * fl (1 - fl 0.51)) - C) - fl 12.9)
                - fl (fl (M * fl (1 - fl 0.51)) * fl 0.12))
            - fl (fl (fl (M * fl (1 - fl 0.51)) + fl 8.5) * fl 0.0455))"
proof -
  have gw: "hasUsedGateway tags \<longleftrightarrow>
        (\<exists>t \<in> set tags. normTag t = ''preloved'' \<or> normTag t = ''preowned / defect'')"
    unfolding hasUsedGateway_def Let_def set_map image_iff by metis
  have g: "marginG M C =
        fl (fl (fl (fl (fl (M * fl (1 - fl 0.51)) - C) - fl 12.9)
                - fl (fl (M * fl (1 - fl 0.51)) * fl 0.12))
            - fl (fl (fl (M * fl (1 - fl 0.51)) + fl 8.5) * fl 0.0455))"
    unfolding marginG_def Let_def ..
  have cls: "(determineTypeArigato M C tags = ''skip'' \<longleftrightarrow> \<not> (M > 0) \<or> \<not> (C > 0))
   \<and> (M > 0 \<and> C > 0 \<and> hasUsedGateway tags \<longrightarrow> determineTypeArigato M C tags = ''used'')
   \<and> (M > 0 \<and> C > 0 \<and> \<not> hasUsedGateway tags \<longrightarrow>
        (determineTypeArigato M C tags = ''standard'' \<longleftrightarrow> marginG M C \<ge> 0)
      \<and> (determineTypeArigato M C tags = ''low-margin'' \<longleftrightarrow> marginG M C < 0))"
    by (simp add: determineTypeArigato_def)
  from cls gw g show ?thesis by blast
qed

theorem determineTypeArigato_cases_witness:
  "determineTypeArigato 1000 300 [''Sale'', ''PreLoved''] = ''used''
   \<and> determineTypeArigato 1000 300 [''Sale''] = ''standard''
   \<and> determineTypeArigato 100 90 [] = ''low-margin''
   \<and> determineTypeArigato 0 90 [''preloved''] = ''skip''"
proof -
  have p: "0 \<le> marginG 1000 300"
    by (rule marginG_nonneg) (simp_all add: marginG_exact_linear roundoff_def)
  have n: "marginG 100 90 < 0"
    by (rule marginG_neg) (simp_all add: marginG_exact_linear roundoff_def)
  show ?thesis
    using determineTypeArigato_cases [of 1000 300 "[''Sale'', ''PreLoved'']"]
      determineTypeArigato_cases [of 1000 300 "[''Sale'']"]
      determineTypeArigato_cases [of 100 90 "[]"]
      determineTypeArigato_cases [of 0 90 "[''preloved'']"] p n
    by (simp add: tag_eval)
qed

text \<open>
  Claim C4, as stated: for a fixed cost and fixed tags the projected worst-case margin \<open>G\<close> is
  non-decreasing in the reference price \<open>M\<close>, so a product classified standard at \<open>M1\<close> is
  never classified low-margin at an \<open>M2 \<ge> M1\<close>. The margin that the program computes is not
  monotone: at the cost \<open>12.72\<close> and without tags, the reference price \<open>63.60095865787897\<close>
  gives the margin \<open>2 powi (- 52)\<close> and the regime standard, and the next binary64 number,
  \<open>63.60095865787898\<close>, gives the margin \<open>- (2 powi (- 52))\<close> and the regime low-margin.
\<close>

theorem regime_not_monotone:
  "fl 63.60095865787897 \<le> fl 63.60095865787898
   \<and> 0 < fl 63.60095865787897
   \<and> 0 < fl 12.72
   \<and> marginG (fl 63.60095865787897) (fl 12.72) = 1 / 2 ^ 52
   \<and> marginG (fl 63.60095865787898) (fl 12.72) = - (1 / 2 ^ 52)
   \<and> determineTypeArigato (fl 63.60095865787897) (fl 12.72) [] = ''standard''
   \<and> determineTypeArigato (fl 63.60095865787898) (fl 12.72) [] = ''low-margin''"
  unfolding fl_inputs
  by (simp add: determineTypeArigato_def hasUsedGateway_def marginG_at_1 marginG_at_2)

text \<open>
  Claim C4, amended: for a fixed cost \<open>C > 0\<close> and fixed tags without a gateway marker, the
  margin formula evaluated exactly (\<open>marginG_exact\<close>) is non-decreasing in the reference
  price \<open>M\<close>, and the margin \<open>G\<close> that the classifier computes in binary64 differs from it by
  at most \<open>roundoff M C = (M + C + 16) / 2 ^ 50\<close>. So for \<open>0 < M1 \<le> M2\<close> a product classified
  standard at \<open>M1\<close> is classified low-margin at \<open>M2\<close> only if the exact margin lies within the
  rounding error of zero at both prices, \<open>- roundoff M1 C \<le> marginG_exact M1 C \<le>
  marginG_exact M2 C < roundoff M2 C\<close>, and then \<open>M2 - M1 < 5 * roundoff M2 C\<close>; a product
  classified standard at \<open>M1\<close> is classified standard at every \<open>M2 \<ge> M1 + 5 * roundoff M2 C\<close>.
\<close>

theorem regime_monotone_up_to_rounding:
  assumes "0 < M1" and "M1 \<le> M2" and "0 < C" and "\<not> hasUsedGateway tags"
  shows "marginG_exact M1 C \<le> marginG_exact M2 C
       \<and> \<bar>marginG M1 C - marginG_exact M1 C\<bar> \<le> roundoff M1 C
       \<and> \<bar>marginG M2 C - marginG_exact M2 C\<bar> \<le> roundoff M2 C
       \<and> (determineTypeArigato M1 C tags = ''standard''
            \<and> determineTypeArigato M2 C tags = ''low-margin'' \<longrightarrow>
              - roundoff M1 C \<le> marginG_exact M1 C
            \<and> marginG_exact M2 C < roundoff M2 C
            \<and> M2 - M1 < 5 * roundoff M2 C)
       \<and> (determineTypeArigato M1 C tags = ''standard'' \<and> M1 + 5 * roundoff M2 C \<le> M2 \<longrightarrow>
            determineTypeArigato M2 C tags = ''standard'')"
proof -
  have pos: "0 \<le> M1" "0 \<le> M2" "0 \<le> C" "0 < M2" using assms by simp_all
  have mono: "marginG_exact M1 C \<le> marginG_exact M2 C"
    using assms(2) by (simp add: marginG_exact_linear)
  have e1: "\<bar>marginG M1 C - marginG_exact M1 C\<bar> \<le> roundoff M1 C"
    by (rule marginG_roundoff[OF pos(1,3)])
  have e2: "\<bar>marginG M2 C - marginG_exact M2 C\<bar> \<le> roundoff M2 C"
    by (rule marginG_roundoff[OF pos(2,3)])
  have r: "roundoff M1 C \<le> roundoff M2 C"
    using assms(2) by (simp add: roundoff_def divide_right_mono)
  have t1: "determineTypeArigato M1 C tags = ''standard'' \<longleftrightarrow> 0 \<le> marginG M1 C"
    using assms by (simp add: determineTypeArigato_def)
  have t2: "determineTypeArigato M2 C tags = ''standard'' \<longleftrightarrow> 0 \<le> marginG M2 C"
    "determineTypeArigato M2 C tags = ''low-margin'' \<longleftrightarrow> marginG M2 C < 0"
    using assms pos(4) by (simp_all add: determineTypeArigato_def)
  have slope: "marginG_exact M2 C - marginG_exact M1 C
      = M2 * (408905 / 1000000) - M1 * (408905 / 1000000)"
    by (simp add: marginG_exact_linear)
  have rev: "- roundoff M1 C \<le> marginG_exact M1 C \<and> marginG_exact M2 C < roundoff M2 C
      \<and> M2 - M1 < 5 * roundoff M2 C"
    if "0 \<le> marginG M1 C" and "marginG M2 C < 0"
    using that e1 e2 r slope by (intro conjI) linarith+
  have keep: "0 \<le> marginG M2 C" if "0 \<le> marginG M1 C" and "M1 + 5 * roundoff M2 C \<le> M2"
    using that e1 e2 r slope by linarith
  show ?thesis unfolding t1 t2 using mono e1 e2 rev keep by blast
qed

theorem regime_monotone_up_to_rounding_witness:
  "0 < fl 63.60095865787897
   \<and> fl 63.60095865787897 \<le> fl 63.60095865787898
   \<and> 0 < fl 12.72
   \<and> \<not> hasUsedGateway []
   \<and> determineTypeArigato (fl 63.60095865787897) (fl 12.72) [] = ''standard''
   \<and> determineTypeArigato (fl 63.60095865787898) (fl 12.72) [] = ''low-margin''
   \<and> - roundoff (fl 63.60095865787897) (fl 12.72) \<le> marginG_exact (fl 63.60095865787897) (fl 12.72)
   \<and> marginG_exact (fl 63.60095865787898) (fl 12.72) < roundoff (fl 63.60095865787898) (fl 12.72)
   \<and> fl 63.60095865787898 - fl 63.60095865787897 < 5 * roundoff (fl 63.60095865787898) (fl 12.72)
   \<and> (200::real) + 5 * roundoff 1000 30 \<le> 1000
   \<and> determineTypeArigato 200 30 [] = ''standard''
   \<and> determineTypeArigato 1000 30 [] = ''standard''"
proof -
  have a: "0 < fl 63.60095865787897" "fl 63.60095865787897 \<le> fl 63.60095865787898"
    "0 < fl 12.72" "\<not> hasUsedGateway []"
    unfolding fl_inputs by (simp_all add: hasUsedGateway_def)
  have s1: "determineTypeArigato (fl 63.60095865787897) (fl 12.72) [] = ''standard''"
    unfolding fl_inputs by (simp add: determineTypeArigato_def hasUsedGateway_def marginG_at_1)
  have s2: "determineTypeArigato (fl 63.60095865787898) (fl 12.72) [] = ''low-margin''"
    unfolding fl_inputs by (simp add: determineTypeArigato_def hasUsedGateway_def marginG_at_2)
  have b: "(0::real) < 200" "(200::real) \<le> 1000" "(0::real) < 30"
    "(200::real) + 5 * roundoff 1000 30 \<le> 1000"
    by (simp_all add: roundoff_def)
  have "0 \<le> marginG 200 30"
    by (rule marginG_nonneg) (simp_all add: marginG_exact_linear roundoff_def)
  then have s3: "determineTypeArigato 200 30 [] = ''standard''"
    by (simp add: determineTypeArigato_def hasUsedGateway_def)
  show ?thesis
    using regime_monotone_up_to_rounding [OF a(1) a(2) a(3) a(4)]
      regime_monotone_up_to_rounding [OF b(1) b(2) b(3) a(4)] a s1 s2 s3 b(4)
    by blast
qed

section \<open>Sample selector\<close>

text \<open>
  Claim C8, as stated: the test subset takes quotas per regime in the order standard,
  low-margin, used, then backfills from the other changed products up to the target count,
  so that its size is the minimum of the target and the number of changed products. The
  engine has no backfill: of nine changed products, all standard, it picks eight.
\<close>

theorem picked_no_backfill:
  "length (picked
     [\<lparr>item_productId = ''1'', item_type = ''standard''\<rparr>,
      \<lparr>item_productId = ''2'', item_type = ''standard''\<rparr>,
      \<lparr>item_productId = ''3'', item_type = ''standard''\<rparr>,
      \<lparr>item_productId = ''4'', item_type = ''standard''\<rparr>,
      \<lparr>item_productId = ''5'', item_type = ''standard''\<rparr>,
      \<lparr>item_productId = ''6'', item_type = ''standard''\<rparr>,
      \<lparr>item_productId = ''7'', item_type = ''standard''\<rparr>,
      \<lparr>item_productId = ''8'', item_type = ''standard''\<rparr>,
      \<lparr>item_productId = ''9'', item_type = ''standard''\<rparr>]) = 8
   \<and> min 20 (length
     [\<lparr>item_productId = ''1'', item_type = ''standard''\<rparr>,
      \<lparr>item_productId = ''2'', item_type = ''standard''\<rparr>,
      \<lparr>item_productId = ''3'', item_type = ''standard''\<rparr>,
      \<lparr>item_productId = ''4'', item_type = ''standard''\<rparr>,
      \<lparr>item_productId = ''5'', item_type = ''standard''\<rparr>,
      \<lparr>item_productId = ''6'', item_type = ''standard''\<rparr>,
      \<lparr>item_productId = ''7'', item_type = ''standard''\<rparr>,
      \<lparr>item_productId = ''8'', item_type = ''standard''\<rparr>,
      \<lparr>item_productId = ''9'', item_type = ''standard''\<rparr>]) = (9::nat)"
  by (simp add: picked_def pick_def)

text \<open>
  Claim C8, amended: in the engine the test subset is the first 8 changed standard products,
  then the first 6 changed low-margin products, then the first 6 changed used products, each
  group in original order, with no backfill from the remaining changed products. It never
  exceeds the target count 20 and holds changed products only; its size is the sum of the
  three quotas as far as they are filled, which is at most the minimum of 20 and the number
  of changed products. The selector of the script \<open>matrixify-run.mjs\<close> and
  \<open>pickMixedTestProducts\<close> never exceed their target count either and select changed products
  only; \<open>pickMixedTestProducts\<close>, which does backfill from all changed products, returns as
  many products as the minimum of the target count and the number of changed products when
  the product ids are distinct.
\<close>

theorem sample_selectors:
  "(picked items =
      take 8 (filter (\<lambda>x. item_type x = ''standard'') items) @
      take 6 (filter (\<lambda>x. item_type x = ''low-margin'') items) @
      take 6 (filter (\<lambda>x. item_type x = ''used'') items)
    \<and> length (picked items) =
        min 8 (length (filter (\<lambda>x. item_type x = ''standard'') items)) +
        min 6 (length (filter (\<lambda>x. item_type x = ''low-margin'') items)) +
        min 6 (length (filter (\<lambda>x. item_type x = ''used'') items))
    \<and> length (picked items) \<le> min 20 (length items)
    \<and> set (picked items) \<subseteq> set items)
   \<and> (length (pickByPriority n standard lowMargin used) \<le> n
    \<and> set (pickByPriority n standard lowMargin used)
        \<subseteq> set standard \<union> set lowMargin \<union> set used)
   \<and> (length (pickMixedTestProducts list count) \<le> count
    \<and> set (pickMixedTestProducts list count) \<subseteq> set list
    \<and> (distinct (map meta_productId list) \<longrightarrow>
         length (pickMixedTestProducts list count) = min count (length list)))"
proof -
  let ?std = "filter (\<lambda>x. item_type x = ''standard'') items"
  let ?lm = "filter (\<lambda>x. item_type x = ''low-margin'') items"
  let ?used = "filter (\<lambda>x. item_type x = ''used'') items"
  have len: "length (take 8 ?std @ take 6 ?lm @ take 6 ?used) \<le> 20" by simp
  have eq: "picked items = take 8 ?std @ take 6 ?lm @ take 6 ?used"
    unfolding picked_def pick_def Let_def using len by simp
  have le: "length ?std + length ?lm + length ?used \<le> length items"
    by (rule three_filters_le) auto
  have sub: "set (take 8 ?std @ take 6 ?lm @ take 6 ?used) \<subseteq> set items"
    using set_take_subset[of 8 ?std] set_take_subset[of 6 ?lm] set_take_subset[of 6 ?used]
    by auto
  have engine: "picked items = take 8 ?std @ take 6 ?lm @ take 6 ?used
    \<and> length (picked items) = min 8 (length ?std) + min 6 (length ?lm) + min 6 (length ?used)
    \<and> length (picked items) \<le> min 20 (length items)
    \<and> set (picked items) \<subseteq> set items"
    unfolding eq using le sub by (simp add: min_def)
  have script: "length (pickByPriority n standard lowMargin used) \<le> n
    \<and> set (pickByPriority n standard lowMargin used)
        \<subseteq> set standard \<union> set lowMargin \<union> set used"
    using pickByPriority_length pickByPriority_subset by blast
  from engine script pickMixedTestProducts_props[of list count] show ?thesis by blast
qed

theorem sample_selectors_witness:
  "picked
     [\<lparr>item_productId = ''1'', item_type = ''standard''\<rparr>,
      \<lparr>item_productId = ''2'', item_type = ''skip''\<rparr>,
      \<lparr>item_productId = ''3'', item_type = ''used''\<rparr>]
   = [\<lparr>item_productId = ''1'', item_type = ''standard''\<rparr>,
      \<lparr>item_productId = ''3'', item_type = ''used''\<rparr>]
   \<and> length (pickByPriority 2 [''1'', ''2''] [''3''] []) \<le> 2
   \<and> distinct (map meta_productId
        [\<lparr>meta_productId = ''1'', meta_type = ''standard'', meta_doDraft = False\<rparr>,
         \<lparr>meta_productId = ''2'', meta_type = ''skip'', meta_doDraft = True\<rparr>])
   \<and> length (pickMixedTestProducts
        [\<lparr>meta_productId = ''1'', meta_type = ''standard'', meta_doDraft = False\<rparr>,
         \<lparr>meta_productId = ''2'', meta_type = ''skip'', meta_doDraft = True\<rparr>] 5) = 2"
  using sample_selectors
    [of "[\<lparr>item_productId = ''1'', item_type = ''standard''\<rparr>,
          \<lparr>item_productId = ''2'', item_type = ''skip''\<rparr>,
          \<lparr>item_productId = ''3'', item_type = ''used''\<rparr>]"
        2 "[''1'', ''2'']" "[''3'']" "[]"
        "[\<lparr>meta_productId = ''1'', meta_type = ''standard'', meta_doDraft = False\<rparr>,
          \<lparr>meta_productId = ''2'', meta_type = ''skip'', meta_doDraft = True\<rparr>]" 5]
  by simp

section \<open>Variant position\<close>

text \<open>
  Claim C7: a row whose variant position is absent or unparseable gets the position 999999,
  sorts last and is never the base variant in preference to a variant with a parseable
  position. In the program \<open>toNumberOrNull\<close> turns an absent or empty cell into the empty
  string, which \<open>Number\<close> reads as \<open>0\<close>: only a cell that is not a number gets 999999, and a
  variant with an empty position is the base variant in preference to the variant at
  position 1. The \<open>toNumberOrNull\<close> of the script \<open>matrixify-run.mjs\<close> returns \<open>null\<close> for
  both.
\<close>

theorem empty_position_is_zero:
  "pos (readVariant (Some ''222'') (Some []) (Some ''10'') (Some ''100'') (Some ''50'')) = 0
   \<and> pos (readVariant (Some ''222'') None (Some ''10'') (Some ''100'') (Some ''50'')) = 0
   \<and> pos (readVariant (Some ''222'') (Some ''abc'') (Some ''10'') (Some ''100'') (Some ''50'')) = 999999
   \<and> map_option variantId
        (pickBase [readVariant (Some ''111'') (Some ''1'') (Some ''10'') (Some ''100'') (Some ''50''),
                   readVariant (Some ''222'') (Some []) (Some ''10'') (Some ''100'') (Some ''50'')])
      = Some ''222''
   \<and> toNumberOrNull_run (Some []) = None
   \<and> toNumberOrNull_run None = None"
  by (simp add: pos_eval pickBase_def toNumberOrNull_run_def)

section \<open>Instruction rows\<close>

text \<open>
  Claim C5: in the only-changes and in the full import every emitted row with a non-empty
  Variant ID carries a non-empty Variant Price; the two fail-fast checks that guard this
  never throw, for any product (and any decision record handed to the row builders), so a
  whole run never ends in one of them.
\<close>

theorem fail_fast_unreachable:
  "(\<exists>rows. fullImport p d = Inr rows \<and>
       (\<forall>r \<in> set rows. Variant_ID r \<noteq> [] \<longrightarrow> Variant_Price r \<noteq> []))
   \<and> (\<exists>rows. onlyChangesImport p d = Inr rows \<and>
       (\<forall>r \<in> set rows. Variant_ID r \<noteq> [] \<longrightarrow> Variant_Price r \<noteq> []))
   \<and> (\<exists>out. runEngine ps = Inr out \<and>
       (\<forall>r \<in> set (importFullRows out) \<union> set (importOnlyChangesRows out).
          Variant_ID r \<noteq> [] \<longrightarrow> Variant_Price r \<noteq> []))"
proof -
  have "\<exists>out. runEngine ps = Inr out \<and>
       (\<forall>r \<in> set (importFullRows out) \<union> set (importOnlyChangesRows out).
          Variant_ID r \<noteq> [] \<longrightarrow> Variant_Price r \<noteq> [])"
    unfolding runEngine_def by (rule runProducts_ok) simp
  with fullImport_Inr[of p d] onlyChangesImport_Inr[of p d] show ?thesis by blast
qed

theorem fail_fast_unreachable_witness:
  "(\<exists>rows. onlyChangesImport
     \<lparr>productId = ''1001'', title = ''Lamp'', handle = ''lamp'', status = ''Active'',
      tagsArr = [''Sale''], asLowAsCurrent = ''49'',
      variants = [\<lparr>variantId = ''11'', pos = 1, price = Some 50, compareAt = Some 100, cost = Some 100\<rparr>,
                  \<lparr>variantId = [], pos = 2, price = None, compareAt = None, cost = None\<rparr>]\<rparr>
     \<lparr>missingMC = False, doDraft = False, desiredType = ''low-margin'',
      desiredPriceNew = None, desiredAsLowAs = None, tagDiff = noTagDiff [''Sale''],
      variantsToUpdate = [''11''], doPrice = True, doMetafield = False,
      needsChange = True\<rparr> = Inr rows \<and> map Variant_Price rows = [''null''])
   \<and> (\<exists>out. runEngine
     [\<lparr>productId = ''1001'', title = ''Lamp'', handle = ''lamp'', status = ''Active'',
       tagsArr = [''Sale''], asLowAsCurrent = ''49'',
       variants = [\<lparr>variantId = ''11'', pos = 1, price = Some 50, compareAt = Some 100, cost = Some 100\<rparr>,
                   \<lparr>variantId = [], pos = 2, price = None, compareAt = None, cost = None\<rparr>]\<rparr>]
     = Inr out)"
  using fail_fast_unreachable
    [of "\<lparr>productId = ''1001'', title = ''Lamp'', handle = ''lamp'', status = ''Active'',
      tagsArr = [''Sale''], asLowAsCurrent = ''49'',
      variants = [\<lparr>variantId = ''11'', pos = 1, price = Some 50, compareAt = Some 100, cost = Some 100\<rparr>,
                  \<lparr>variantId = [], pos = 2, price = None, compareAt = None, cost = None\<rparr>]\<rparr>"
     "\<lparr>missingMC = False, doDraft = False, desiredType = ''low-margin'',
      desiredPriceNew = None, desiredAsLowAs = None, tagDiff = noTagDiff [''Sale''],
      variantsToUpdate = [''11''], doPrice = True, doMetafield = False,
      needsChange = True\<rparr>"
     "[\<lparr>productId = ''1001'', title = ''Lamp'', handle = ''lamp'', status = ''Active'',
       tagsArr = [''Sale''], asLowAsCurrent = ''49'',
       variants = [\<lparr>variantId = ''11'', pos = 1, price = Some 50, compareAt = Some 100, cost = Some 100\<rparr>,
                   \<lparr>variantId = [], pos = 2, price = None, compareAt = None, cost = None\<rparr>]\<rparr>]"]
  by (auto simp: onlyChangesImport_def Let_def mfCell_def primaryVariantId_def pickBase_def
      secondaryRow_def jsString_def noTagDiff_def)

text \<open>
  Claim C6, as stated: every secondary row carries only the variant's id and new price, its
  Tags, Tags Command, Status and advertised-from fields being empty. The program writes the
  advertised-from cell of the primary row on every secondary row as well; for a low-margin
  product with the stored value 49 and two variants to update, the second row carries 49.
\<close>

theorem secondary_row_carries_metafield:
  "onlyChangesImport
     \<lparr>productId = ''1001'', title = ''Lamp'', handle = ''lamp'', status = ''Active'',
      tagsArr = [''Sale''], asLowAsCurrent = ''49'',
      variants = [\<lparr>variantId = ''11'', pos = 1, price = Some 50, compareAt = Some 100, cost = Some 100\<rparr>,
                  \<lparr>variantId = ''12'', pos = 2, price = Some 60, compareAt = Some 100, cost = Some 100\<rparr>]\<rparr>
     (decide
        \<lparr>productId = ''1001'', title = ''Lamp'', handle = ''lamp'', status = ''Active'',
         tagsArr = [''Sale''], asLowAsCurrent = ''49'',
         variants = [\<lparr>variantId = ''11'', pos = 1, price = Some 50, compareAt = Some 100, cost = Some 100\<rparr>,
                     \<lparr>variantId = ''12'', pos = 2, price = Some 60, compareAt = Some 100, cost = Some 100\<rparr>]\<rparr>)
   = Inr [\<lparr>ID = ''1001'', Command = ''UPDATE'', Tags = ''Sale, low-margin'',
            Tags_Command = ''REPLACE'', Status = [], Variant_ID = ''11'',
            Variant_Command = ''UPDATE'', Variant_Price = ''100'', Metafield = ''49''\<rparr>,
          \<lparr>ID = ''1001'', Command = ''UPDATE'', Tags = [], Tags_Command = [], Status = [],
            Variant_ID = ''12'', Variant_Command = ''UPDATE'', Variant_Price = ''100'',
            Metafield = ''49''\<rparr>]"
  unfolding decide_example
  by (simp add: onlyChangesImport_def Let_def mfCell_def primaryVariantId_def pickBase_def
      secondaryRow_def jsString_def numberToString_def showNat_eval digitChar_def)

text \<open>
  Claim C6, amended: every secondary row, in the only-changes and in the full import, has
  empty Tags, Tags Command and Status, names a variant (one scheduled for a price update in
  the only-changes import) with the new price, and repeats the advertised-from cell of the
  primary row: the new value for a standard product, the stored value otherwise.
\<close>

theorem secondary_rows:
  assumes "processProduct p = Inr out"
  shows "(\<forall>r \<in> set (tl (onlyChangesRows out)).
       Tags r = [] \<and> Tags_Command r = [] \<and> Status r = [] \<and>
       Variant_ID r \<in> set (variantsToUpdate (decide p)) \<and> Variant_ID r \<noteq> [] \<and>
       Variant_Price r = jsString (desiredPriceNew (decide p)) \<and>
       Metafield r = mfCell p (decide p) \<and> Metafield r = Metafield (hd (onlyChangesRows out)))
   \<and> (\<forall>r \<in> set (tl (fullRows out)).
       Tags r = [] \<and> Tags_Command r = [] \<and> Status r = [] \<and>
       Variant_ID r \<in> variantId ` set (variants p) \<and> Variant_ID r \<noteq> [] \<and>
       Variant_Price r = jsString (desiredPriceNew (decide p)) \<and>
       Metafield r = mfCell p (decide p) \<and> Metafield r = Metafield (hd (fullRows out)))"
proof -
  from processProduct_Inr[of p] assms
  have f: "fullRows out = [] \<or> fullImport p (decide p) = Inr (fullRows out)"
    and c: "onlyChangesRows out = [] \<or> onlyChangesImport p (decide p) = Inr (onlyChangesRows out)"
    by auto
  from c have "\<forall>r \<in> set (tl (onlyChangesRows out)).
       Tags r = [] \<and> Tags_Command r = [] \<and> Status r = [] \<and>
       Variant_ID r \<in> set (variantsToUpdate (decide p)) \<and> Variant_ID r \<noteq> [] \<and>
       Variant_Price r = jsString (desiredPriceNew (decide p)) \<and>
       Metafield r = mfCell p (decide p) \<and> Metafield r = Metafield (hd (onlyChangesRows out))"
  proof
    assume "onlyChangesRows out = []" then show ?thesis by simp
  next
    assume "onlyChangesImport p (decide p) = Inr (onlyChangesRows out)"
    from onlyChangesImport_secondary[OF this] show ?thesis by simp
  qed
  moreover from f have "\<forall>r \<in> set (tl (fullRows out)).
       Tags r = [] \<and> Tags_Command r = [] \<and> Status r = [] \<and>
       Variant_ID r \<in> variantId ` set (variants p) \<and> Variant_ID r \<noteq> [] \<and>
       Variant_Price r = jsString (desiredPriceNew (decide p)) \<and>
       Metafield r = mfCell p (decide p) \<and> Metafield r = Metafield (hd (fullRows out))"
  proof
    assume "fullRows out = []" then show ?thesis by simp
  next
    assume "fullImport p (decide p) = Inr (fullRows out)"
    from fullImport_secondary[OF this] show ?thesis by simp
  qed
  ultimately show ?thesis by blast
qed

theorem secondary_rows_witness:
  "\<exists>out. processProduct
     \<lparr>productId = ''1001'', title = ''Lamp'', handle = ''lamp'', status = ''Active'',
      tagsArr = [''Sale''], asLowAsCurrent = ''49'',
      variants = [\<lparr>variantId = ''11'', pos = 1, price = Some 50, compareAt = Some 100, cost = Some 100\<rparr>,
                  \<lparr>variantId = ''12'', pos = 2, price = Some 60, compareAt = Some 100, cost = Some 100\<rparr>]\<rparr>
     = Inr out
   \<and> (\<forall>r \<in> set (tl (onlyChangesRows out)). Tags r = [] \<and> Status r = [] \<and> Metafield r = ''49'')"
proof -
  let ?p = "\<lparr>productId = ''1001'', title = ''Lamp'', handle = ''lamp'', status = ''Active'',
      tagsArr = [''Sale''], asLowAsCurrent = ''49'',
      variants = [\<lparr>variantId = ''11'', pos = 1, price = Some 50, compareAt = Some 100, cost = Some 100\<rparr>,
                  \<lparr>variantId = ''12'', pos = 2, price = Some 60, compareAt = Some 100, cost = Some 100\<rparr>]\<rparr>"
  obtain out where out: "processProduct ?p = Inr out" using processProduct_Inr by blast
  have mf: "mfCell ?p (decide ?p) = ''49''"
    unfolding decide_example by (simp add: mfCell_def)
  from secondary_rows[OF out] mf out show ?thesis by auto
qed

section \<open>Idempotence\<close>

text \<open>
  Claim C2: for every product, when the instructions of a first run are in force (every
  variant scheduled for a price update has the new price, the tags are the desired tags, the
  status is the draft marker when a draft is scheduled, the advertised-from cell holds the new
  value when it is scheduled) and the engine runs again on that state, then \<open>doDraft\<close>,
  \<open>doTags\<close>, \<open>doPrice\<close> and \<open>doMetafield\<close> are all false, and so is \<open>needsChange\<close>. It holds
  whether the tags are replaced always (\<open>b\<close> true) or only when a tag change is scheduled.
\<close>

theorem second_run_no_change:
  "\<not> doDraft (decide (simulateApplied b p (decide p)))
   \<and> \<not> doTags (tagDiff (decide (simulateApplied b p (decide p))))
   \<and> \<not> doPrice (decide (simulateApplied b p (decide p)))
   \<and> \<not> doMetafield (decide (simulateApplied b p (decide p)))
   \<and> \<not> needsChange (decide (simulateApplied b p (decide p)))"
proof -
  define d where "d = decide p"
  define q where "q = simulateApplied b p d"
  define f :: "variant \<Rightarrow> variant" where "f = (\<lambda>v. if variantId v \<in> set (variantsToUpdate d)
                             then v\<lparr>price := desiredPriceNew d\<rparr> else v)"
  have qs: "status q = (if doDraft d then ''Draft'' else status p)"
    and qt: "tagsArr q = (if b \<or> doTags (tagDiff d) then desiredTagsArr (tagDiff d) else tagsArr p)"
    and qa: "asLowAsCurrent q = (if doMetafield d then jsString (desiredAsLowAs d) else asLowAsCurrent p)"
    and qv: "variants q = map f (variants p)"
    by (simp_all add: q_def simulateApplied_def f_def)
  have fpos: "pos (f v) = pos v" and fcmp: "compareAt (f v) = compareAt v"
    and fcost: "cost (f v) = cost v" and fid: "variantId (f v) = variantId v" for v
    by (simp_all add: f_def)
  have base: "pickBase (variants q) = map_option f (pickBase (variants p))"
    unfolding qv by (rule pickBase_map) (rule fpos)
  define g where "g = (case pickBase (variants p) of None \<Rightarrow> 0
              | Some b \<Rightarrow> (case compareAt b of None \<Rightarrow> (0::real) | Some x \<Rightarrow> x))"
  define M where "M = (if g > 0 then g else 0)"
  define C where "C = (case pickBase (variants p) of None \<Rightarrow> 0
              | Some b \<Rightarrow> (case cost b of None \<Rightarrow> (0::real) | Some x \<Rightarrow> x))"
  have gq: "g = (case pickBase (variants q) of None \<Rightarrow> 0
              | Some b \<Rightarrow> (case compareAt b of None \<Rightarrow> 0 | Some x \<Rightarrow> x))"
    unfolding g_def base by (cases "pickBase (variants p)") (simp_all add: fcmp)
  have Cq: "C = (case pickBase (variants q) of None \<Rightarrow> 0
              | Some b \<Rightarrow> (case cost b of None \<Rightarrow> 0 | Some x \<Rightarrow> x))"
    unfolding C_def base by (cases "pickBase (variants p)") (simp_all add: fcost)
  have goal: "\<not> doDraft (decide q) \<and> \<not> doTags (tagDiff (decide q)) \<and> \<not> doPrice (decide q)
     \<and> \<not> doMetafield (decide q) \<and> \<not> needsChange (decide q)"
  proof (cases "hasCnfdnt (tagsArr p)")
    case True
    have dd: "tagDiff d = noTagDiff (tagsArr p)" unfolding d_def decide_cnfdnt[OF True] by simp
    have "tagsArr q = tagsArr p" unfolding qt dd by (simp add: noTagDiff_def)
    with True have "hasCnfdnt (tagsArr q)" by simp
    from decide_cnfdnt[OF this] show ?thesis by (simp add: noTagDiff_def)
  next
    case nc: False
    show ?thesis
    proof (cases "M > 0 \<and> C > 0")
      case False
      note dm = decide_missing[OF nc g_def M_def C_def False]
      have dd: "tagDiff d = noTagDiff (tagsArr p)" "doDraft d = (toLowerCase (status p) \<noteq> ''draft'')"
        unfolding d_def dm by simp_all
      have tq: "tagsArr q = tagsArr p" unfolding qt dd by (simp add: noTagDiff_def)
      have sq: "toLowerCase (status q) = ''draft''"
        unfolding qs dd using lower_Draft by (cases "toLowerCase (status p) = ''draft''") simp_all
      have ncq: "\<not> hasCnfdnt (tagsArr q)" using nc tq by simp
      from decide_missing[OF ncq gq M_def Cq False] sq show ?thesis by (simp add: noTagDiff_def)
    next
      case True
      then have Mp: "M > 0" and Cp: "C > 0" by simp_all
      define dtype where "dtype = determineTypeArigato M C (tagsArr p)"
      have tt: "dtype \<in> set TYPE_TAGS" unfolding dtype_def by (rule determineTypeArigato_type[OF Mp Cp])
      obtain pr where pr: "computePricing M C dtype = Some pr"
        using computePricing_Some[OF Mp Cp] by blast
      note dp = decide_priced[OF nc g_def M_def C_def True dtype_def pr]
      let ?Q = "\<lambda>v. variantId v \<noteq> [] \<and> \<not> approxEqualMoney (price v) (Some (price_new pr))"
      have d_td: "tagDiff d = computeTagDiff (tagsArr p) dtype"
        and d_pn: "desiredPriceNew d = Some (price_new pr)"
        and d_vtu: "variantsToUpdate d = map variantId (filter ?Q (variants p))"
        and d_al: "desiredAsLowAs d =
           (if dtype = ''standard'' \<and> as_low_as pr > 0 then Some (as_low_as pr) else None)"
        and d_mf: "doMetafield d = (dtype = ''standard'' \<and> as_low_as pr > 0 \<and>
          \<not> (toNumberOrNull (Some (asLowAsCurrent p)) \<noteq> None \<and>
             approxEqualMoney (toNumberOrNull (Some (asLowAsCurrent p))) (Some (as_low_as pr))))"
        unfolding d_def dp by simp_all
      \<comment> \<open>the tags\<close>
      have tags: "hasCnfdnt (tagsArr q) = hasCnfdnt (tagsArr p)
          \<and> hasUsedGateway (tagsArr q) = hasUsedGateway (tagsArr p)
          \<and> \<not> doTags (computeTagDiff (tagsArr q) dtype)"
      proof (cases "b \<or> doTags (tagDiff d)")
        case True
        then have "tagsArr q = filter (\<lambda>t. normTag t \<notin> set TYPE_TAGS) (tagsArr p) @ [dtype]"
          unfolding qt d_td by (simp add: computeTagDiff_type[OF tt])
        then show ?thesis
          using desired_keeps_markers[OF tt, of "tagsArr p"] desired_tags_stable[OF tt, of "tagsArr p"]
          by simp
      next
        case False
        then have "tagsArr q = tagsArr p" and "\<not> doTags (computeTagDiff (tagsArr p) dtype)"
          unfolding qt d_td by simp_all
        then show ?thesis by simp
      qed
      have ncq: "\<not> hasCnfdnt (tagsArr q)" using tags nc by simp
      have dtq: "dtype = determineTypeArigato M C (tagsArr q)"
        unfolding dtype_def
        using determineTypeArigato_gateway[of "tagsArr q" "tagsArr p" M C] tags by simp
      note dq = decide_priced[OF ncq gq M_def Cq True dtq pr]
      \<comment> \<open>the prices\<close>
      have "\<not> ?Q (f v)" if "v \<in> set (variants p)" for v
      proof (cases "variantId v \<in> set (variantsToUpdate d)")
        case True
        then have "price (f v) = Some (price_new pr)" by (simp add: f_def d_pn)
        then show ?thesis by (simp add: approxEqualMoney_refl)
      next
        case False
        then have "f v = v" by (simp add: f_def)
        moreover from False that have "\<not> ?Q v" unfolding d_vtu by auto
        ultimately show ?thesis by simp
      qed
      then have prices: "filter ?Q (variants q) = []"
        unfolding qv by (simp add: filter_empty_conv)
      \<comment> \<open>the advertised-from value\<close>
      have mf: "\<not> (dtype = ''standard'' \<and> as_low_as pr > 0 \<and>
          \<not> (toNumberOrNull (Some (asLowAsCurrent q)) \<noteq> None \<and>
             approxEqualMoney (toNumberOrNull (Some (asLowAsCurrent q))) (Some (as_low_as pr))))"
      proof (cases "doMetafield d")
        case True
        then have "dtype = ''standard''" "as_low_as pr > 0" unfolding d_mf by simp_all
        then have "asLowAsCurrent q = jsString (Some (as_low_as pr))"
          unfolding qa d_al using True by simp
        then have "toNumberOrNull (Some (asLowAsCurrent q)) = Some (as_low_as pr)"
          by (simp add: metafield_settles[OF pr])
        then show ?thesis by (simp add: approxEqualMoney_refl)
      next
        case False
        then have "asLowAsCurrent q = asLowAsCurrent p" unfolding qa by simp
        with False show ?thesis unfolding d_mf by simp
      qed
      show ?thesis unfolding dq using tags prices mf by simp
    qed
  qed
  then show ?thesis unfolding q_def d_def .
qed

theorem second_run_no_change_witness:
  "needsChange (decide
     \<lparr>productId = ''1001'', title = ''Lamp'', handle = ''lamp'', status = ''Active'',
      tagsArr = [''Sale''], asLowAsCurrent = ''49'',
      variants = [\<lparr>variantId = ''11'', pos = 1, price = Some 50, compareAt = Some 100, cost = Some 100\<rparr>,
                  \<lparr>variantId = ''12'', pos = 2, price = Some 60, compareAt = Some 100, cost = Some 100\<rparr>]\<rparr>)
   \<and> \<not> needsChange (decide (simulateApplied False
     \<lparr>productId = ''1001'', title = ''Lamp'', handle = ''lamp'', status = ''Active'',
      tagsArr = [''Sale''], asLowAsCurrent = ''49'',
      variants = [\<lparr>variantId = ''11'', pos = 1, price = Some 50, compareAt = Some 100, cost = Some 100\<rparr>,
                  \<lparr>variantId = ''12'', pos = 2, price = Some 60, compareAt = Some 100, cost = Some 100\<rparr>]\<rparr>
     (decide
     \<lparr>productId = ''1001'', title = ''Lamp'', handle = ''lamp'', status = ''Active'',
      tagsArr = [''Sale''], asLowAsCurrent = ''49'',
      variants = [\<lparr>variantId = ''11'', pos = 1, price = Some 50, compareAt = Some 100, cost = Some 100\<rparr>,
                  \<lparr>variantId = ''12'', pos = 2, price = Some 60, compareAt = Some 100, cost = Some 100\<rparr>]\<rparr>)))"
  using second_run_no_change [of False
     "\<lparr>productId = ''1001'', title = ''Lamp'', handle = ''lamp'', status = ''Active'',
      tagsArr = [''Sale''], asLowAsCurrent = ''49'',
      variants = [\<lparr>variantId = ''11'', pos = 1, price = Some 50, compareAt = Some 100, cost = Some 100\<rparr>,
                  \<lparr>variantId = ''12'', pos = 2, price = Some 60, compareAt = Some 100, cost = Some 100\<rparr>]\<rparr>"]
    decide_example
  by simp

end
